theory Spec2Isabelle
  imports Main "HOL-Library.Word"
begin

section \<open>Python values used by mmg\<close>

text \<open>
  Strings are lists of 8-bit characters, read as code points below 256.
  A YAML (or JSON) tree is a dictionary, a list, a string or another scalar.
  A dictionary is an association list in insertion order; Python dictionaries
  have pairwise distinct keys, which \<open>wf_yml\<close> states. A float is carried
  as its IEEE-754 bit pattern: the program only copies it and tests its truth value.
\<close>

datatype scalar = SInt int | SFloat "64 word" | SBool bool | SNull

datatype yml =
    YDict "(string \<times> yml) list"
  | YList "yml list"
  | YStr string
  | YScalar scalar

datatype error =
    BadConfigError string
  | AttributeError
  | TypeError
  | KeyError
  | IndexError

text \<open>\<open>str.isspace\<close> on one character, for code points below 256.\<close>

definition py_isspace :: "char \<Rightarrow> bool" where
  "py_isspace c = (let n = (of_char c :: nat) in
     (9 \<le> n \<and> n \<le> 13) \<or> (28 \<le> n \<and> n \<le> 32) \<or> n = 133 \<or> n = 160)"

text \<open>\<open>s.strip()\<close>\<close>

definition strip :: "string \<Rightarrow> string" where
  "strip s = rev (dropWhile py_isspace (rev (dropWhile py_isspace s)))"

text \<open>\<open>s.replace(" ", "")\<close>\<close>

definition remove_spaces :: "string \<Rightarrow> string" where
  "remove_spaces s = filter (\<lambda>c. c \<noteq> CHR '' '') s"

text \<open>\<open>s.split(sep)\<close> for a one-character separator: never the empty list.\<close>

fun split_on :: "char \<Rightarrow> string \<Rightarrow> string list" where
  "split_on sep [] = [[]]"
| "split_on sep (c # cs) =
     (if c = sep then [] # split_on sep cs
      else (case split_on sep cs of
              [] \<Rightarrow> [[c]]
            | w # ws \<Rightarrow> (c # w) # ws))"

text \<open>\<open>sep.join(xs)\<close>\<close>

fun join :: "string \<Rightarrow> string list \<Rightarrow> string" where
  "join sep [] = []"
| "join sep [x] = x"
| "join sep (x # y # ys) = x @ sep @ join sep (y # ys)"

text \<open>
  \<open>str(v)\<close>: a string is itself; the text of any other value is given by
  the parameter \<open>repr\<close> (Python's built-in rendering, not part of mmg).
\<close>

definition py_str :: "(yml \<Rightarrow> string) \<Rightarrow> yml \<Rightarrow> string" where
  "py_str repr v = (case v of YStr s \<Rightarrow> s | _ \<Rightarrow> repr v)"

text \<open>Truth value of a scalar, as \<open>if value:\<close> tests it.\<close>

fun truthy_scalar :: "scalar \<Rightarrow> bool" where
  "truthy_scalar (SInt i) = (i \<noteq> 0)"
| "truthy_scalar (SFloat w) = (w \<noteq> 0 \<and> w \<noteq> 2 ^ 63)"
| "truthy_scalar (SBool b) = b"
| "truthy_scalar SNull = False"

section \<open>mmg/config.py\<close>

definition RESERVED_KEYWORDS :: "string list" where
  "RESERVED_KEYWORDS = [''common'', ''ignore'', ''<Unknown>'']"

text \<open>
  The field \<open>lang_tags\<close> is declared \<open>List[str]\<close>, but
  \<open>extract_config_from_yml\<close> stores a value that is neither a string nor a list
  unchanged: a dictionary (\<open>TagDict\<close>) or a scalar (\<open>TagScalar\<close>).
\<close>

datatype tags_value =
    TagList "string list"
  | TagDict "(string \<times> yml) list"
  | TagScalar scalar

record Config =
  lang_tags :: tags_value
  no_suffix :: "string option"

text \<open>\<open>Config()\<close>\<close>

definition Config0 :: Config where
  "Config0 = \<lparr>lang_tags = TagList [], no_suffix = None\<rparr>"

fun truthy_tags :: "tags_value \<Rightarrow> bool" where
  "truthy_tags (TagList ts) = (ts \<noteq> [])"
| "truthy_tags (TagDict m) = (m \<noteq> [])"
| "truthy_tags (TagScalar s) = truthy_scalar s"

fun truthy_opt_str :: "string option \<Rightarrow> bool" where
  "truthy_opt_str None = False"
| "truthy_opt_str (Some s) = (s \<noteq> [])"

definition already_defined :: "string \<Rightarrow> string" where
  "already_defined config_name =
     ''The configuration '' @ [CHR 0x27] @ config_name @ [CHR 0x27] @ '' is already defined.''"

text \<open>\<open>_check_duplicate_config_value\<close>: raises when the value is truthy.\<close>

definition check_duplicate_config_value :: "bool \<Rightarrow> string \<Rightarrow> error + unit" where
  "check_duplicate_config_value value_truthy config_name =
     (if value_truthy then Inl (BadConfigError (already_defined config_name)) else Inr ())"

text \<open>\<open>extract_config_from_yml\<close>\<close>

definition yml_lang_tags :: "(yml \<Rightarrow> string) \<Rightarrow> yml \<Rightarrow> tags_value" where
  "yml_lang_tags repr v =
     (case v of
        YStr s \<Rightarrow> TagList (split_on CHR '','' (remove_spaces s))
      | YList xs \<Rightarrow> TagList (map (\<lambda>tag. strip (py_str repr tag)) xs)
      | YDict m \<Rightarrow> TagDict m
      | YScalar sc \<Rightarrow> TagScalar sc)"

definition extract_config_from_yml :: "(yml \<Rightarrow> string) \<Rightarrow> yml \<Rightarrow> error + Config" where
  "extract_config_from_yml repr base_yml =
     (case base_yml of
        YDict kvs \<Rightarrow>
          (let cfg = Config0;
               mmg_config = (case map_of kvs ''mmg'' of Some v \<Rightarrow> v | None \<Rightarrow> YDict [])
           in case mmg_config of
                YDict m \<Rightarrow>
                  (case (case map_of m ''lang_tags'' of
                           Some v \<Rightarrow>
                             (if truthy_tags (lang_tags cfg)
                              then Inl (BadConfigError (already_defined ''lang_tags''))
                              else Inr (cfg\<lparr>lang_tags := yml_lang_tags repr v\<rparr>))
                         | None \<Rightarrow> Inr cfg) of
                     Inl e \<Rightarrow> Inl e
                   | Inr cfg1 \<Rightarrow>
                       (case map_of m ''no_suffix'' of
                          Some v \<Rightarrow>
                            (if truthy_opt_str (no_suffix cfg1)
                             then Inl (BadConfigError (already_defined ''no_suffix''))
                             else Inr (cfg1\<lparr>no_suffix := Some (strip (py_str repr v))\<rparr>))
                        | None \<Rightarrow> Inr cfg1))
              | _ \<Rightarrow> Inr cfg)
      | _ \<Rightarrow> Inl AttributeError)"

text \<open>
  The marker grammar. \<open>mmg.utils.REGEX_PATTERN\<close> is not part of the sources at
  hand, so the regular expressions the code applies are parameters:
  \<open>comment_match\<close> is \<open>REGEX_PATTERN["comment"].match(line)\<close>,
  \<open>lang_tags_search\<close> is group 2 of \<open>REGEX_PATTERN["lang_tags"].search(line)\<close>,
  \<open>no_suffix_search\<close> is group 1 of \<open>REGEX_PATTERN["no_suffix"].search(line)\<close>,
  \<open>tag_search\<close> is the payload of the language-switch form, and
  \<open>fence_match\<close> recognises a code-fence line.
\<close>

record grammar =
  comment_match :: "string \<Rightarrow> bool"
  lang_tags_search :: "string \<Rightarrow> string option"
  no_suffix_search :: "string \<Rightarrow> string option"
  tag_search :: "string \<Rightarrow> string option"
  fence_match :: "string \<Rightarrow> bool"

text \<open>\<open>_try_update_lang_tags\<close>\<close>

definition try_update_lang_tags :: "grammar \<Rightarrow> string \<Rightarrow> Config \<Rightarrow> error + Config" where
  "try_update_lang_tags g line cfg =
     (case lang_tags_search g line of
        Some payload \<Rightarrow>
          (case check_duplicate_config_value (truthy_tags (lang_tags cfg)) ''lang_tags'' of
             Inl e \<Rightarrow> Inl e
           | Inr _ \<Rightarrow> Inr (cfg\<lparr>lang_tags := TagList (split_on CHR '','' (remove_spaces payload))\<rparr>))
      | None \<Rightarrow> Inr cfg)"

text \<open>\<open>_try_update_no_suffix\<close>\<close>

definition try_update_no_suffix :: "grammar \<Rightarrow> string \<Rightarrow> Config \<Rightarrow> error + Config" where
  "try_update_no_suffix g line cfg =
     (case no_suffix_search g line of
        Some payload \<Rightarrow>
          (case check_duplicate_config_value (truthy_opt_str (no_suffix cfg)) ''no_suffix'' of
             Inl e \<Rightarrow> Inl e
           | Inr _ \<Rightarrow> Inr (cfg\<lparr>no_suffix := Some payload\<rparr>))
      | None \<Rightarrow> Inr cfg)"

text \<open>Decimal text of a natural number, as an f-string renders \<open>line_num + 1\<close>.\<close>

definition digit_char :: "nat \<Rightarrow> char" where
  "digit_char d = char_of (48 + d)"

fun string_of_nat :: "nat \<Rightarrow> string" where
  "string_of_nat n =
     (if n < 10 then [digit_char n] else string_of_nat (n div 10) @ [digit_char (n mod 10)])"

definition check_line :: "nat \<Rightarrow> string" where
  "check_line line_num = '' [Check line: '' @ string_of_nat (line_num + 1) @ '']''"

text \<open>\<open>enumerate(base_doc)\<close>\<close>

definition enumerate_lines :: "string list \<Rightarrow> (nat \<times> string) list" where
  "enumerate_lines base_doc = zip [0..<length base_doc] base_doc"

text \<open>
  The loop of \<open>extract_config_from_md\<close>. Indexing the mask beyond its length
  raises IndexError; a BadConfigError of the two updates is raised again with the
  line number appended.
\<close>

fun extract_loop :: "grammar \<Rightarrow> bool list \<Rightarrow> (nat \<times> string) list \<Rightarrow> Config \<Rightarrow> error + Config" where
  "extract_loop g is_in_code_block [] cfg = Inr cfg"
| "extract_loop g is_in_code_block ((line_num, line) # rest) cfg =
     (if length is_in_code_block \<le> line_num then Inl IndexError
      else if is_in_code_block ! line_num then extract_loop g is_in_code_block rest cfg
      else if comment_match g line then
        (case (case try_update_lang_tags g line cfg of
                 Inl e \<Rightarrow> Inl e
               | Inr cfg1 \<Rightarrow> try_update_no_suffix g line cfg1) of
           Inl (BadConfigError e) \<Rightarrow> Inl (BadConfigError (e @ check_line line_num))
         | Inl e \<Rightarrow> Inl e
         | Inr cfg2 \<Rightarrow> extract_loop g is_in_code_block rest cfg2)
      else extract_loop g is_in_code_block rest cfg)"

text \<open>
  \<open>extract_config_from_md\<close>; the mask function \<open>flag_code_block_lines\<close> of
  \<open>mmg.utils\<close> is the parameter \<open>flags\<close>.
\<close>

definition extract_config_from_md ::
  "grammar \<Rightarrow> (string list \<Rightarrow> bool list) \<Rightarrow> string list \<Rightarrow> error + Config" where
  "extract_config_from_md g flags base_doc =
     extract_loop g (flags base_doc) (enumerate_lines base_doc) Config0"

text \<open>
  Modelled from the spec: \<open>flag_code_block_lines\<close> of \<open>mmg.utils\<close>, which is not
  part of the sources at hand. The mask marks the lines of fenced code regions; a
  fence line opens or closes a region and belongs to it.
\<close>

fun flag_from :: "(string \<Rightarrow> bool) \<Rightarrow> bool \<Rightarrow> string list \<Rightarrow> bool list" where
  "flag_from fence inside [] = []"
| "flag_from fence inside (l # ls) =
     (if fence l then True # flag_from fence (\<not> inside) ls
      else inside # flag_from fence inside ls)"

definition flag_code_block_lines :: "grammar \<Rightarrow> string list \<Rightarrow> bool list" where
  "flag_code_block_lines g base_doc = flag_from (fence_match g) False base_doc"

text \<open>
  A notebook, as far as the code reads it: the cells, and of each cell its
  \<open>cell_type\<close> and its \<open>source\<close>, which the notebook format allows to be a list
  of line strings or a single string. A missing key raises KeyError.
\<close>

datatype source = SrcLines "string list" | SrcText string

record cell =
  cell_type :: "string option"
  source :: "source option"

record notebook =
  cells :: "cell list option"

text \<open>Iterating a source: the lines of a list, the characters of a string.\<close>

fun iter_source :: "source \<Rightarrow> string list" where
  "iter_source (SrcLines ls) = ls"
| "iter_source (SrcText s) = map (\<lambda>c. [c]) s"

text \<open>\<open>[cell["source"] for cell in base_jn["cells"] if cell["cell_type"] == "markdown"]\<close>\<close>

fun md_sources :: "cell list \<Rightarrow> error + source list" where
  "md_sources [] = Inr []"
| "md_sources (c # cs) =
     (case cell_type c of
        None \<Rightarrow> Inl KeyError
      | Some ty \<Rightarrow>
          (if ty = ''markdown'' then
             (case source c of
                None \<Rightarrow> Inl KeyError
              | Some src \<Rightarrow>
                  (case md_sources cs of Inl e \<Rightarrow> Inl e | Inr srcs \<Rightarrow> Inr (src # srcs)))
           else md_sources cs))"

text \<open>\<open>extract_config_from_jupyter\<close>\<close>

definition extract_config_from_jupyter ::
  "grammar \<Rightarrow> (string list \<Rightarrow> bool list) \<Rightarrow> notebook \<Rightarrow> error + Config" where
  "extract_config_from_jupyter g flags base_jn =
     (case cells base_jn of
        None \<Rightarrow> Inl KeyError
      | Some cs \<Rightarrow>
          (case md_sources cs of
             Inl e \<Rightarrow> Inl e
           | Inr md_cells \<Rightarrow> extract_config_from_md g flags (concat (map iter_source md_cells))))"

section \<open>Dictionaries\<close>

text \<open>
  \<open>d[k] = v\<close>: an existing key keeps its position and takes the new value, a new
  key is appended. \<open>d[k]\<close> raises KeyError for a missing key.
\<close>

fun setitem :: "('k \<times> 'v) list \<Rightarrow> 'k \<Rightarrow> 'v \<Rightarrow> ('k \<times> 'v) list" where
  "setitem [] k v = [(k, v)]"
| "setitem ((k', v') # d) k v =
     (if k' = k then (k', v) # d else (k', v') # setitem d k v)"

definition getitem :: "('k \<times> 'v) list \<Rightarrow> 'k \<Rightarrow> error + 'v" where
  "getitem d k = (case map_of d k of None \<Rightarrow> Inl KeyError | Some v \<Rightarrow> Inr v)"

text \<open>\<open>{k: f(k) for k in ks}\<close>\<close>

definition dict_comp :: "('k \<Rightarrow> 'v) \<Rightarrow> 'k list \<Rightarrow> ('k \<times> 'v) list" where
  "dict_comp f ks = foldl (\<lambda>d k. setitem d k (f k)) [] ks"

text \<open>
  \<open>s.splitlines()\<close>: a line ends at LF, CR, CR LF, VT, FF, FS, GS, RS or NEL; the
  line ends are dropped, and text after the last one is a line only if not empty.
\<close>

definition is_linebreak :: "char \<Rightarrow> bool" where
  "is_linebreak c = (let n = (of_char c :: nat) in
     (10 \<le> n \<and> n \<le> 13) \<or> (28 \<le> n \<and> n \<le> 30) \<or> n = 133)"

fun splitlines_from :: "string \<Rightarrow> string \<Rightarrow> string list" where
  "splitlines_from cur [] = (if cur = [] then [] else [rev cur])"
| "splitlines_from cur [c] =
     (if is_linebreak c then [rev cur] else [rev (c # cur)])"
| "splitlines_from cur (c # d # cs) =
     (if c = CHR 0x0D \<and> d = CHR 0x0A then rev cur # splitlines_from [] cs
      else if is_linebreak c then rev cur # splitlines_from [] (d # cs)
      else splitlines_from (c # cur) (d # cs))"

definition splitlines :: "string \<Rightarrow> string list" where
  "splitlines s = splitlines_from [] s"

section \<open>The classification engine\<close>

definition UNKNOWN :: string where
  "UNKNOWN = ''<Unknown>''"

type_synonym docs = "(string \<times> string list) list"

text \<open>
  Modelled from the spec: \<open>MarkdownClassifier\<close> of \<open>mmg.classifier\<close>, which is not
  part of the sources at hand. One output sequence per declared tag; the state is the
  active tag, initially \<open><Unknown>\<close>. A language-switch line sets the active tag to
  its payload and is not emitted. A content line goes to every output when the active
  tag is \<open><Unknown>\<close> or \<open>common\<close>, to none when it is \<open>ignore\<close>, to the
  output of the active tag when that is a declared tag, and is dropped otherwise.
\<close>

definition route :: "string list \<Rightarrow> string \<Rightarrow> string \<Rightarrow> docs \<Rightarrow> docs" where
  "route tags active line ds =
     (if active = UNKNOWN \<or> active = ''common'' then map (\<lambda>(t, d). (t, d @ [line])) ds
      else if active = ''ignore'' then ds
      else if active \<in> set tags then
        map (\<lambda>(t, d). if t = active then (t, d @ [line]) else (t, d)) ds
      else ds)"

fun classify_from :: "grammar \<Rightarrow> string list \<Rightarrow> string \<Rightarrow> docs \<Rightarrow> string list \<Rightarrow> docs" where
  "classify_from g tags active ds [] = ds"
| "classify_from g tags active ds (line # rest) =
     (case tag_search g line of
        Some t \<Rightarrow> classify_from g tags t ds rest
      | None \<Rightarrow> classify_from g tags active (route tags active line ds) rest)"

definition empty_docs :: "string list \<Rightarrow> docs" where
  "empty_docs tags = dict_comp (\<lambda>_. []) tags"

definition classify :: "grammar \<Rightarrow> string list \<Rightarrow> string list \<Rightarrow> docs" where
  "classify g tags lines = classify_from g tags UNKNOWN (empty_docs tags) lines"

text \<open>The active tag after a sequence of lines.\<close>

fun active_after :: "grammar \<Rightarrow> string \<Rightarrow> string list \<Rightarrow> string" where
  "active_after g active [] = active"
| "active_after g active (line # rest) =
     (case tag_search g line of
        Some t \<Rightarrow> active_after g t rest
      | None \<Rightarrow> active_after g active rest)"

text \<open>
  Modelled from the spec: \<open>insert_toc\<close> of the classifier. The pass works on each
  language's output in turn; what it does to one output is the parameter \<open>toc\<close>.
\<close>

definition insert_toc :: "(string list \<Rightarrow> string list) \<Rightarrow> docs \<Rightarrow> docs" where
  "insert_toc toc ds = map (\<lambda>(lang, d). (lang, toc d)) ds"

section \<open>mmg/api.py\<close>

datatype HealthStatus = HEALTHY | WARNING | UNHEALTHY

fun status_name :: "HealthStatus \<Rightarrow> string" where
  "status_name HEALTHY = ''HEALTHY''"
| "status_name WARNING = ''WARNING''"
| "status_name UNHEALTHY = ''UNHEALTHY''"

definition NL :: string where
  "NL = [CHR 0x0A]"

definition health_check_failed :: "HealthStatus \<Rightarrow> string list \<Rightarrow> string" where
  "health_check_failed status error_messages =
     ''Health check failed.'' @ NL @ '' - Status: '' @ status_name status @ NL @
     '' - Error:'' @ NL @ join NL error_messages"

text \<open>
  \<open>_health_check\<close>. \<open>HealthChecker\<close> of \<open>mmg.health\<close> is not part of the sources
  at hand: the parameter \<open>hc\<close> gives the status that \<open>hc.health_check\<close> returns and
  the \<open>hc.error_messages\<close> it leaves. Printing the log changes no result and is
  left out, with \<open>print_log\<close>, \<open>file_name\<close> and \<open>verbosity\<close>.
\<close>

definition health_check ::
  "('d \<Rightarrow> Config \<Rightarrow> string \<Rightarrow> HealthStatus \<times> string list) \<Rightarrow>
   'd \<Rightarrow> Config \<Rightarrow> string \<Rightarrow> bool \<Rightarrow> bool \<Rightarrow> error + unit" where
  "health_check hc base cfg extension skip_health_check force_convert =
     (if \<not> skip_health_check then
        (case hc base cfg extension of
           (status, error_messages) \<Rightarrow>
             (if \<not> force_convert \<and> status \<noteq> HEALTHY
              then Inl (BadConfigError (health_check_failed status error_messages))
              else Inr ()))
      else Inr ())"

text \<open>
  \<open>for lang in cfg.lang_tags\<close>: a list gives its entries, a dictionary its keys,
  and iterating a scalar raises TypeError.
\<close>

fun iter_tags :: "tags_value \<Rightarrow> error + string list" where
  "iter_tags (TagList ts) = Inr ts"
| "iter_tags (TagDict m) = Inr (map fst m)"
| "iter_tags (TagScalar sc) = Inl TypeError"

text \<open>\<open>cfg if cfg else extract(base)\<close>\<close>

definition cfg_or :: "Config option \<Rightarrow> (error + Config) \<Rightarrow> error + Config" where
  "cfg_or cfg extracted = (case cfg of Some c \<Rightarrow> Inr c | None \<Rightarrow> extracted)"

text \<open>\<open>convert_base_doc\<close>\<close>

definition convert_base_doc ::
  "grammar \<Rightarrow> (string list \<Rightarrow> bool list) \<Rightarrow>
   (string list \<Rightarrow> Config \<Rightarrow> string \<Rightarrow> HealthStatus \<times> string list) \<Rightarrow>
   (string list \<Rightarrow> string list) \<Rightarrow>
   string list \<Rightarrow> Config option \<Rightarrow> bool \<Rightarrow> bool \<Rightarrow> error + docs" where
  "convert_base_doc g flags hc toc base_doc cfg skip_health_check force_convert =
     (case cfg_or cfg (extract_config_from_md g flags base_doc) of
        Inl e \<Rightarrow> Inl e
      | Inr c \<Rightarrow>
          (case health_check hc base_doc c ''md'' skip_health_check force_convert of
             Inl e \<Rightarrow> Inl e
           | Inr _ \<Rightarrow>
               (case iter_tags (lang_tags c) of
                  Inl e \<Rightarrow> Inl e
                | Inr tags \<Rightarrow> Inr (insert_toc toc (classify g tags base_doc)))))"

text \<open>\<open>convert\<close>\<close>

definition convert ::
  "grammar \<Rightarrow> (string list \<Rightarrow> bool list) \<Rightarrow>
   (string list \<Rightarrow> Config \<Rightarrow> string \<Rightarrow> HealthStatus \<times> string list) \<Rightarrow>
   (string list \<Rightarrow> string list) \<Rightarrow>
   string \<Rightarrow> Config option \<Rightarrow> bool \<Rightarrow> bool \<Rightarrow> error + (string \<times> string) list" where
  "convert g flags hc toc base_md cfg skip_health_check force_convert =
     (case convert_base_doc g flags hc toc (splitlines base_md) cfg
             skip_health_check force_convert of
        Inl e \<Rightarrow> Inl e
      | Inr target_docs \<Rightarrow>
          Inr (foldl (\<lambda>d (lang, doc). setitem d lang (join NL doc)) [] target_docs))"

text \<open>
  Modelled from the spec: \<open>JupyterClassifier\<close> of \<open>mmg.classifier\<close>, which is not
  part of the sources at hand. Every language starts with an empty notebook. The
  source of a markdown cell is classified, and the cell goes, with the classified
  source, into each language's notebook for which that source is not empty; any other
  cell goes unchanged into every notebook.
\<close>

type_synonym notebooks = "(string \<times> cell list) list"

definition init_targets :: "string list \<Rightarrow> notebooks" where
  "init_targets tags = dict_comp (\<lambda>_. []) tags"

definition push :: "grammar \<Rightarrow> string list \<Rightarrow> cell \<Rightarrow> notebooks \<Rightarrow> error + notebooks" where
  "push g tags c nbs =
     (case cell_type c of
        None \<Rightarrow> Inl KeyError
      | Some ty \<Rightarrow>
          (if ty = ''markdown'' then
             (case source c of
                None \<Rightarrow> Inl KeyError
              | Some src \<Rightarrow>
                  (let classified = classify g tags (iter_source src)
                   in Inr (map (\<lambda>(lang, nb).
                             (lang, case map_of classified lang of
                                      Some (x # xs) \<Rightarrow> nb @ [c\<lparr>source := Some (SrcLines (x # xs))\<rparr>]
                                    | _ \<Rightarrow> nb)) nbs)))
           else Inr (map (\<lambda>(lang, nb). (lang, nb @ [c])) nbs)))"

fun push_all :: "grammar \<Rightarrow> string list \<Rightarrow> cell list \<Rightarrow> notebooks \<Rightarrow> error + notebooks" where
  "push_all g tags [] nbs = Inr nbs"
| "push_all g tags (c # cs) nbs =
     (case push g tags c nbs of
        Inl e \<Rightarrow> Inl e
      | Inr nbs' \<Rightarrow> push_all g tags cs nbs')"

text \<open>\<open>convert_base_jupyter\<close>; the table of contents of a notebook is the parameter \<open>toc\<close>.\<close>

definition convert_base_jupyter ::
  "grammar \<Rightarrow> (string list \<Rightarrow> bool list) \<Rightarrow>
   (notebook \<Rightarrow> Config \<Rightarrow> string \<Rightarrow> HealthStatus \<times> string list) \<Rightarrow>
   (cell list \<Rightarrow> cell list) \<Rightarrow>
   notebook \<Rightarrow> Config option \<Rightarrow> bool \<Rightarrow> bool \<Rightarrow> error + notebooks" where
  "convert_base_jupyter g flags hc toc base_jn cfg skip_health_check force_convert =
     (case cfg_or cfg (extract_config_from_jupyter g flags base_jn) of
        Inl e \<Rightarrow> Inl e
      | Inr c \<Rightarrow>
          (case health_check hc base_jn c ''ipynb'' skip_health_check force_convert of
             Inl e \<Rightarrow> Inl e
           | Inr _ \<Rightarrow>
               (case iter_tags (lang_tags c) of
                  Inl e \<Rightarrow> Inl e
                | Inr tags \<Rightarrow>
                    (case cells base_jn of
                       None \<Rightarrow> Inl KeyError
                     | Some cs \<Rightarrow>
                         (case push_all g tags cs (init_targets tags) of
                            Inl e \<Rightarrow> Inl e
                          | Inr nbs \<Rightarrow> Inr (map (\<lambda>(lang, nb). (lang, toc nb)) nbs))))))"

text \<open>
  \<open>process_obj\<close> of \<open>convert_base_yml\<close>. The result maps each language to its tree.
  \<open>result_dicts[lang][key] = v\<close> and \<open>result_dicts[lang].append(v)\<close> change the
  tree stored under \<open>lang\<close>; \<open>copy.deepcopy\<close> returns an equal value.
\<close>

type_synonym trees = "(string \<times> yml) list"

definition set_field :: "trees \<Rightarrow> string \<Rightarrow> string \<Rightarrow> yml \<Rightarrow> error + trees" where
  "set_field result_dicts lang key v =
     (case getitem result_dicts lang of
        Inl e \<Rightarrow> Inl e
      | Inr (YDict d) \<Rightarrow> Inr (setitem result_dicts lang (YDict (setitem d key v)))
      | Inr _ \<Rightarrow> Inl TypeError)"

definition append_item :: "trees \<Rightarrow> string \<Rightarrow> yml \<Rightarrow> error + trees" where
  "append_item result_dicts lang v =
     (case getitem result_dicts lang of
        Inl e \<Rightarrow> Inl e
      | Inr (YList xs) \<Rightarrow> Inr (setitem result_dicts lang (YList (xs @ [v])))
      | Inr _ \<Rightarrow> Inl AttributeError)"

text \<open>\<open>for lang in cfg.lang_tags: result_dicts[lang][key] = copy.deepcopy(value)\<close>\<close>

fun assign_copies :: "string list \<Rightarrow> string \<Rightarrow> yml \<Rightarrow> trees \<Rightarrow> error + trees" where
  "assign_copies [] key v result_dicts = Inr result_dicts"
| "assign_copies (lang # langs) key v result_dicts =
     (case set_field result_dicts lang key v of
        Inl e \<Rightarrow> Inl e
      | Inr rd \<Rightarrow> assign_copies langs key v rd)"

text \<open>\<open>for lang in cfg.lang_tags: result_dicts[lang][key] = processed[lang]\<close>\<close>

fun assign_processed :: "string list \<Rightarrow> string \<Rightarrow> trees \<Rightarrow> trees \<Rightarrow> error + trees" where
  "assign_processed [] key processed result_dicts = Inr result_dicts"
| "assign_processed (lang # langs) key processed result_dicts =
     (case getitem processed lang of
        Inl e \<Rightarrow> Inl e
      | Inr v \<Rightarrow>
          (case set_field result_dicts lang key v of
             Inl e \<Rightarrow> Inl e
           | Inr rd \<Rightarrow> assign_processed langs key processed rd))"

text \<open>\<open>for lang in cfg.lang_tags: result_dicts[lang].append(processed[lang])\<close>\<close>

fun append_processed :: "string list \<Rightarrow> trees \<Rightarrow> trees \<Rightarrow> error + trees" where
  "append_processed [] processed result_dicts = Inr result_dicts"
| "append_processed (lang # langs) processed result_dicts =
     (case getitem processed lang of
        Inl e \<Rightarrow> Inl e
      | Inr v \<Rightarrow>
          (case append_item result_dicts lang v of
             Inl e \<Rightarrow> Inl e
           | Inr rd \<Rightarrow> append_processed langs processed rd))"

text \<open>\<open>{lang: "\n".join(classifier.docs[lang]) for lang in cfg.lang_tags}\<close>\<close>

fun joined_docs :: "docs \<Rightarrow> string list \<Rightarrow> trees \<Rightarrow> error + trees" where
  "joined_docs ds [] result_dicts = Inr result_dicts"
| "joined_docs ds (lang # langs) result_dicts =
     (case getitem ds lang of
        Inl e \<Rightarrow> Inl e
      | Inr d \<Rightarrow> joined_docs ds langs (setitem result_dicts lang (YStr (join NL d))))"

fun process_obj :: "grammar \<Rightarrow> string list \<Rightarrow> yml \<Rightarrow> error + trees"
  and process_fields :: "grammar \<Rightarrow> string list \<Rightarrow> (string \<times> yml) list \<Rightarrow> trees \<Rightarrow> error + trees"
  and process_list :: "grammar \<Rightarrow> string list \<Rightarrow> yml list \<Rightarrow> trees \<Rightarrow> error + trees" where
  "process_obj g tags (YDict kvs) =
     process_fields g tags kvs (dict_comp (\<lambda>_. YDict []) tags)"
| "process_obj g tags (YList xs) =
     process_list g tags xs (dict_comp (\<lambda>_. YList []) tags)"
| "process_obj g tags (YStr s) =
     joined_docs (classify g tags (splitlines s)) tags []"
| "process_obj g tags (YScalar sc) = Inr (dict_comp (\<lambda>_. YScalar sc) tags)"
| "process_fields g tags [] result_dicts = Inr result_dicts"
| "process_fields g tags ((key, v) # rest) result_dicts =
     (if key = ''mmg'' then
        (case assign_copies tags key v result_dicts of
           Inl e \<Rightarrow> Inl e
         | Inr rd \<Rightarrow> process_fields g tags rest rd)
      else
        (case process_obj g tags v of
           Inl e \<Rightarrow> Inl e
         | Inr processed \<Rightarrow>
             (case assign_processed tags key processed result_dicts of
                Inl e \<Rightarrow> Inl e
              | Inr rd \<Rightarrow> process_fields g tags rest rd)))"
| "process_list g tags [] result_dicts = Inr result_dicts"
| "process_list g tags (item # rest) result_dicts =
     (case process_obj g tags item of
        Inl e \<Rightarrow> Inl e
      | Inr processed \<Rightarrow>
          (case append_processed tags processed result_dicts of
             Inl e \<Rightarrow> Inl e
           | Inr rd \<Rightarrow> process_list g tags rest rd))"

text \<open>\<open>convert_base_yml\<close>\<close>

definition convert_base_yml ::
  "grammar \<Rightarrow> (yml \<Rightarrow> string) \<Rightarrow>
   (yml \<Rightarrow> Config \<Rightarrow> string \<Rightarrow> HealthStatus \<times> string list) \<Rightarrow>
   yml \<Rightarrow> Config option \<Rightarrow> bool \<Rightarrow> bool \<Rightarrow> error + trees" where
  "convert_base_yml g repr hc base_yml cfg skip_health_check force_convert =
     (case cfg_or cfg (extract_config_from_yml repr base_yml) of
        Inl e \<Rightarrow> Inl e
      | Inr c \<Rightarrow>
          (case health_check hc base_yml c ''yml'' skip_health_check force_convert of
             Inl e \<Rightarrow> Inl e
           | Inr _ \<Rightarrow>
               (case iter_tags (lang_tags c) of
                  Inl e \<Rightarrow> Inl e
                | Inr tags \<Rightarrow> process_obj g tags base_yml)))"

section \<open>A concrete marker grammar\<close>

text \<open>
  An instance of the grammar parameters, for running the model on concrete documents:
  the block-comment form with single spaces, \<open><!-- lang_tags: a,b -->\<close>,
  \<open><!-- no_suffix: a -->\<close>, \<open><!-- [a] -->\<close>, with a non-empty payload, and
  fences that start with three backticks.
\<close>

fun strip_prefix :: "string \<Rightarrow> string \<Rightarrow> string option" where
  "strip_prefix [] s = Some s"
| "strip_prefix (p # ps) [] = None"
| "strip_prefix (p # ps) (c # cs) = (if p = c then strip_prefix ps cs else None)"

definition strip_suffix :: "string \<Rightarrow> string \<Rightarrow> string option" where
  "strip_suffix p s = map_option rev (strip_prefix (rev p) (rev s))"

definition block_payload :: "string \<Rightarrow> string option" where
  "block_payload l =
     (case strip_prefix ''<!-- '' l of None \<Rightarrow> None | Some r \<Rightarrow> strip_suffix '' -->'' r)"

definition keyed :: "string \<Rightarrow> string \<Rightarrow> string option" where
  "keyed key l =
     (case block_payload l of
        None \<Rightarrow> None
      | Some p \<Rightarrow>
          (case strip_prefix key p of
             None \<Rightarrow> None
           | Some v \<Rightarrow> if v = [] then None else Some v))"

definition bracketed :: "string \<Rightarrow> string option" where
  "bracketed l =
     (case block_payload l of
        None \<Rightarrow> None
      | Some p \<Rightarrow>
          (case strip_prefix ''['' p of
             None \<Rightarrow> None
           | Some r \<Rightarrow>
               (case strip_suffix '']'' r of
                  None \<Rightarrow> None
                | Some t \<Rightarrow> if t = [] then None else Some t)))"

definition block_grammar :: grammar where
  "block_grammar =
     \<lparr>comment_match = (\<lambda>l. block_payload l \<noteq> None),
      lang_tags_search = keyed ''lang_tags: '',
      no_suffix_search = keyed ''no_suffix: '',
      tag_search = bracketed,
      fence_match = (\<lambda>l. strip_prefix ''```'' l \<noteq> None)\<rparr>"

section \<open>Notions used in the statements\<close>

text \<open>
  A declaration line of one kind: a line outside the code-block mask that passes the
  comment test and on which the search of that kind matches. \<open>decls\<close> lists the
  declaration lines of a document with their 0-based line numbers, in order.
\<close>

definition is_decl ::
  "(string \<Rightarrow> string option) \<Rightarrow> grammar \<Rightarrow> bool list \<Rightarrow> nat \<times> string \<Rightarrow> bool" where
  "is_decl search g msk = (\<lambda>(i, line). \<not> msk ! i \<and> comment_match g line \<and> search line \<noteq> None)"

definition decls ::
  "(string \<Rightarrow> string option) \<Rightarrow> grammar \<Rightarrow> bool list \<Rightarrow> string list \<Rightarrow> (nat \<times> string) list" where
  "decls search g msk doc = filter (is_decl search g msk) (enumerate_lines doc)"

text \<open>The two updates of one line, and the Config they leave when neither raises.\<close>

definition line_step :: "grammar \<Rightarrow> string \<Rightarrow> Config \<Rightarrow> error + Config" where
  "line_step g line cfg =
     (case try_update_lang_tags g line cfg of
        Inl e \<Rightarrow> Inl e
      | Inr cfg1 \<Rightarrow> try_update_no_suffix g line cfg1)"

definition after_line :: "grammar \<Rightarrow> string \<Rightarrow> Config \<Rightarrow> Config" where
  "after_line g l cfg =
     \<lparr>lang_tags = (case lang_tags_search g l of
                     Some p \<Rightarrow> TagList (split_on CHR '','' (remove_spaces p))
                   | None \<Rightarrow> lang_tags cfg),
      no_suffix = (case no_suffix_search g l of Some p \<Rightarrow> Some p | None \<Rightarrow> no_suffix cfg)\<rparr>"




definition second :: "(nat \<times> string) list \<Rightarrow> bool \<Rightarrow> nat" where
  "second ds h = fst (ds ! (if h then 0 else 1))"






text \<open>The keys of a dictionary filled in the order of a list: later duplicates are dropped.\<close>

fun add_keys :: "'k list \<Rightarrow> 'k list \<Rightarrow> 'k list" where
  "add_keys acc [] = acc"
| "add_keys acc (k # ks) = add_keys (if k \<in> set acc then acc else acc @ [k]) ks"

definition first_occurrences :: "'k list \<Rightarrow> 'k list" where
  "first_occurrences ks = add_keys [] ks"

text \<open>The gate lets a conversion through: it is skipped, overridden, or the verdict is HEALTHY.\<close>

definition gate_open ::
  "('d \<Rightarrow> Config \<Rightarrow> string \<Rightarrow> HealthStatus \<times> string list) \<Rightarrow> 'd \<Rightarrow> Config \<Rightarrow> string \<Rightarrow> bool \<Rightarrow> bool \<Rightarrow> bool" where
  "gate_open hc base c ext skip force = (skip \<or> force \<or> fst (hc base c ext) = HEALTHY)"


text \<open>A Config given by the caller, and a health checker that reports a missing tag.\<close>

definition cfg_en_es :: Config where
  "cfg_en_es = \<lparr>lang_tags = TagList [''en'', ''es''], no_suffix = None\<rparr>"

definition hc_missing :: "'d \<Rightarrow> Config \<Rightarrow> string \<Rightarrow> HealthStatus \<times> string list" where
  "hc_missing base c ext = (UNHEALTHY, [''es: no marker'', ''second message''])"

text \<open>A tree with a list of one multilingual string.\<close>

definition items_tree :: yml where
  "items_tree =
     YDict [(''mmg'', YDict [(''lang_tags'', YList [YStr ''en'', YStr ''fr''])]),
            (''items'', YList [YStr (''<!-- [en] -->'' @ NL @ ''A'' @ NL @ ''<!-- [fr] -->'' @ NL @ ''B'')])]"

text \<open>
  Whether a content line is emitted to the output of tag \<open>t\<close> under an active tag, and
  the lines that a sequence of lines contributes to that output.
\<close>

definition routes :: "string list \<Rightarrow> string \<Rightarrow> string \<Rightarrow> bool" where
  "routes tags active t =
     (active = UNKNOWN \<or> active = ''common'' \<or>
      (active \<noteq> ''ignore'' \<and> active \<in> set tags \<and> t = active))"

fun emitted :: "grammar \<Rightarrow> string list \<Rightarrow> string \<Rightarrow> string \<Rightarrow> string list \<Rightarrow> string list" where
  "emitted g tags active t [] = []"
| "emitted g tags active t (line # rest) =
     (case tag_search g line of
        Some a \<Rightarrow> emitted g tags a t rest
      | None \<Rightarrow> (if routes tags active t then [line] else []) @ emitted g tags active t rest)"

text \<open>The keys of every dictionary of a tree are pairwise distinct, as in Python.\<close>

fun wf_yml :: "yml \<Rightarrow> bool"
  and wf_fields :: "(string \<times> yml) list \<Rightarrow> bool"
  and wf_items :: "yml list \<Rightarrow> bool" where
  "wf_yml (YDict kvs) = (distinct (map fst kvs) \<and> wf_fields kvs)"
| "wf_yml (YList xs) = wf_items xs"
| "wf_yml (YStr s) = True"
| "wf_yml (YScalar sc) = True"
| "wf_fields [] = True"
| "wf_fields ((k, v) # kvs) = (wf_yml v \<and> wf_fields kvs)"
| "wf_items [] = True"
| "wf_items (x # xs) = (wf_yml x \<and> wf_items xs)"

text \<open>
  Two trees have the same shape: the same keys in the same order in every dictionary,
  the same length of every list, equal scalars that are not strings, a string where
  there is a string, and an equal value under the key \<open>mmg\<close>.
\<close>

fun same_shape :: "yml \<Rightarrow> yml \<Rightarrow> bool"
  and same_fields :: "(string \<times> yml) list \<Rightarrow> (string \<times> yml) list \<Rightarrow> bool"
  and same_items :: "yml list \<Rightarrow> yml list \<Rightarrow> bool" where
  "same_shape (YDict kvs) t = (case t of YDict kvs' \<Rightarrow> same_fields kvs kvs' | _ \<Rightarrow> False)"
| "same_shape (YList xs) t = (case t of YList xs' \<Rightarrow> same_items xs xs' | _ \<Rightarrow> False)"
| "same_shape (YStr s) t = (case t of YStr s' \<Rightarrow> True | _ \<Rightarrow> False)"
| "same_shape (YScalar sc) t = (t = YScalar sc)"
| "same_fields [] kvs' = (kvs' = [])"
| "same_fields ((k, v) # kvs) kvs' =
     (case kvs' of
        [] \<Rightarrow> False
      | (k', v') # rest \<Rightarrow>
          k' = k \<and> (if k = ''mmg'' then v' = v else same_shape v v') \<and> same_fields kvs rest)"
| "same_items [] xs' = (xs' = [])"
| "same_items (x # xs) xs' =
     (case xs' of [] \<Rightarrow> False | x' # rest \<Rightarrow> same_shape x x' \<and> same_items xs rest)"

text \<open>The tree of one language: what \<open>process_obj\<close> computes for it when the tags are distinct.\<close>

fun proj :: "grammar \<Rightarrow> string list \<Rightarrow> string \<Rightarrow> yml \<Rightarrow> yml"
  and proj_fields :: "grammar \<Rightarrow> string list \<Rightarrow> string \<Rightarrow> (string \<times> yml) list \<Rightarrow> (string \<times> yml) list"
  and proj_items :: "grammar \<Rightarrow> string list \<Rightarrow> string \<Rightarrow> yml list \<Rightarrow> yml list" where
  "proj g tags lang (YDict kvs) = YDict (proj_fields g tags lang kvs)"
| "proj g tags lang (YList xs) = YList (proj_items g tags lang xs)"
| "proj g tags lang (YStr s) = YStr (join NL (emitted g tags UNKNOWN lang (splitlines s)))"
| "proj g tags lang (YScalar sc) = YScalar sc"
| "proj_fields g tags lang [] = []"
| "proj_fields g tags lang ((k, v) # kvs) =
     (k, if k = ''mmg'' then v else proj g tags lang v) # proj_fields g tags lang kvs"
| "proj_items g tags lang [] = []"
| "proj_items g tags lang (x # xs) = proj g tags lang x # proj_items g tags lang xs"

text \<open>A tree whose own configuration declares the tag \<open>en\<close> twice.\<close>

definition dup_tree :: yml where
  "dup_tree =
     YDict [(''mmg'', YDict [(''lang_tags'', YList [YStr ''en'', YStr ''en''])]),
            (''items'', YList [YStr ''A''])]"

text \<open>
  A notebook in which every markdown cell whose source is a single string has that
  source replaced by an empty list of lines.
\<close>

fun blank_src :: "source \<Rightarrow> source" where
  "blank_src (SrcText s) = SrcLines []"
| "blank_src (SrcLines ls) = SrcLines ls"

definition blank_text_cell :: "cell \<Rightarrow> cell" where
  "blank_text_cell c =
     (if cell_type c = Some ''markdown'' then c\<lparr>source := map_option blank_src (source c)\<rparr> else c)"

definition blank_text_cells :: "notebook \<Rightarrow> notebook" where
  "blank_text_cells nb = nb\<lparr>cells := map_option (map blank_text_cell) (cells nb)\<rparr>"

text \<open>The Config that the extraction loop returns, read off the lines and their mask bits.\<close>

fun scan_ok :: "grammar \<Rightarrow> (bool \<times> string) list \<Rightarrow> Config \<Rightarrow> Config option" where
  "scan_ok g [] cfg = Some cfg"
| "scan_ok g ((b, l) # rest) cfg =
     (if b \<or> \<not> comment_match g l then scan_ok g rest cfg
      else (case line_step g l cfg of
              Inl e \<Rightarrow> None
            | Inr cfg' \<Rightarrow> scan_ok g rest cfg'))"

text \<open>A notebook whose only cell is markdown and holds a declaration as a single string.\<close>

definition nb_text :: notebook where
  "nb_text =
     \<lparr>cells = Some [\<lparr>cell_type = Some ''markdown'',
                      source = Some (SrcText ''<!-- lang_tags: en,es -->'')\<rparr>]\<rparr>"

section \<open>Tree input: extraction is total\<close>

text \<open>
  C9. \<open>extract_config_from_yml\<close> returns a Config for every dictionary input and
  never raises; when the key \<open>mmg\<close> is absent or its value is not a mapping the
  Config has empty \<open>lang_tags\<close> and \<open>no_suffix\<close> None. Both duplicate-declaration
  branches are therefore never taken.
\<close>

theorem extract_config_from_yml_total:
  "(\<exists>cfg. extract_config_from_yml repr (YDict kvs) = Inr cfg) \<and>
   (map_of kvs ''mmg'' = None \<longrightarrow> extract_config_from_yml repr (YDict kvs) = Inr Config0) \<and>
   ((\<exists>v. map_of kvs ''mmg'' = Some v \<and> (\<forall>m. v \<noteq> YDict m)) \<longrightarrow>
      extract_config_from_yml repr (YDict kvs) = Inr Config0)"
  by (auto simp: extract_config_from_yml_def Config0_def Let_def
           split: option.splits yml.splits)

theorem extract_config_from_yml_total_witness:
  "extract_config_from_yml (\<lambda>_. ''x'') (YDict [(''title'', YStr ''Test'')]) = Inr Config0 \<and>
   extract_config_from_yml (\<lambda>_. ''x'') (YDict [(''mmg'', YStr ''en'')]) = Inr Config0"
  using extract_config_from_yml_total [of "\<lambda>_. ''x''" "[(''title'', YStr ''Test'')]"]
        extract_config_from_yml_total [of "\<lambda>_. ''x''" "[(''mmg'', YStr ''en'')]"]
  by simp

section \<open>Splitting and joining\<close>

lemma split_on_not_Nil: "split_on sep s \<noteq> []"
  by (induction s) (auto split: list.splits)

lemma split_on_no_sep: "sep \<notin> set e \<Longrightarrow> split_on sep e = [e]"
  by (induction e) auto

lemma split_on_append: "sep \<notin> set e \<Longrightarrow> split_on sep (e @ sep # r) = e # split_on sep r"
  by (induction e) auto

lemma split_join:
  "es \<noteq> [] \<Longrightarrow> \<forall>e\<in>set es. sep \<notin> set e \<Longrightarrow> split_on sep (join [sep] es) = es"
  by (induction "[sep]" es rule: join.induct) (auto simp: split_on_no_sep split_on_append)

lemma remove_spaces_join: "remove_spaces (join '','' es) = join '','' (map remove_spaces es)"
  by (induction "'',''" es rule: join.induct) (auto simp: remove_spaces_def)

lemma set_remove_spaces: "c \<notin> set e \<Longrightarrow> c \<notin> set (remove_spaces e)"
  by (simp add: remove_spaces_def)

lemma split_declared:
  "es \<noteq> [] \<Longrightarrow> \<forall>e\<in>set es. CHR '','' \<notin> set e \<Longrightarrow>
   split_on CHR '','' (remove_spaces (join '','' es)) = map remove_spaces es"
  using split_join [of "map remove_spaces es" "CHR '',''"]
  by (simp add: remove_spaces_join set_remove_spaces)

section \<open>The extraction loop\<close>

lemma line_step_cases:
  "line_step g l cfg =
     (if lang_tags_search g l \<noteq> None \<and> truthy_tags (lang_tags cfg)
      then Inl (BadConfigError (already_defined ''lang_tags''))
      else if no_suffix_search g l \<noteq> None \<and> truthy_opt_str (no_suffix cfg)
      then Inl (BadConfigError (already_defined ''no_suffix''))
      else Inr (after_line g l cfg))"
  by (auto simp: line_step_def after_line_def try_update_lang_tags_def try_update_no_suffix_def
        check_duplicate_config_value_def split: option.splits)

lemma extract_loop_Cons:
  "extract_loop g msk ((i, l) # rest) cfg =
     (if length msk \<le> i then Inl IndexError
      else if msk ! i \<or> \<not> comment_match g l then extract_loop g msk rest cfg
      else (case line_step g l cfg of
              Inl (BadConfigError e) \<Rightarrow> Inl (BadConfigError (e @ check_line i))
            | Inl e \<Rightarrow> Inl e
            | Inr cfg2 \<Rightarrow> extract_loop g msk rest cfg2))"
  by (simp add: line_step_def)

lemma truthy_after_lt:
  "truthy_tags (lang_tags (after_line g l cfg)) =
     (lang_tags_search g l \<noteq> None \<or> truthy_tags (lang_tags cfg))"
  by (auto simp: after_line_def split_on_not_Nil split: option.splits)









section \<open>Markdown input: duplicate declarations\<close>


lemma length_flag_from: "length (flag_from f b ls) = length ls"
  by (induction ls arbitrary: b) auto







section \<open>Normalisation of declared tags\<close>

lemma extract_yml_lang_tags:
  "\<exists>cfg. extract_config_from_yml repr (YDict ((''mmg'', YDict ((''lang_tags'', v) # m)) # kvs)) = Inr cfg \<and>
         lang_tags cfg = yml_lang_tags repr v"
  by (auto simp: extract_config_from_yml_def Config0_def Let_def split: option.splits)

lemma extract_yml_lang_tags_only:
  "extract_config_from_yml repr (YDict [(''mmg'', YDict [(''lang_tags'', v)])]) =
     Inr \<lparr>lang_tags = yml_lang_tags repr v, no_suffix = None\<rparr>"
  by (simp add: extract_config_from_yml_def Config0_def Let_def)

lemma strip_plain: "strip ''en'' = ''en''" "strip ''es'' = ''es''" "strip ''a b'' = ''a b''"
  by code_simp+

text \<open>
  C6, as the code behaves. In the string form, in markdown and in YAML, each extracted tag is the
  corresponding declared entry with every space character removed, interior ones
  included, and nothing else changed; in the list form of YAML each extracted tag is
  the entry with its surrounding whitespace stripped.
\<close>

theorem lang_tags_normalisation:
  assumes "es \<noteq> []" and "\<forall>e\<in>set es. CHR '','' \<notin> set e"
  shows
    "(lang_tags_search g line = Some (join '','' es) \<longrightarrow>
        try_update_lang_tags g line Config0 =
          Inr (Config0\<lparr>lang_tags := TagList (map remove_spaces es)\<rparr>)) \<and>
     (\<exists>cfg. extract_config_from_yml repr
               (YDict ((''mmg'', YDict ((''lang_tags'', YStr (join '','' es)) # m)) # kvs)) = Inr cfg \<and>
            lang_tags cfg = TagList (map remove_spaces es)) \<and>
     (\<exists>cfg. extract_config_from_yml repr
               (YDict ((''mmg'', YDict ((''lang_tags'', YList (map YStr xs)) # m)) # kvs)) = Inr cfg \<and>
            lang_tags cfg = TagList (map strip xs))"
proof -
  note sd = split_declared [OF assms]
  have 1: "lang_tags_search g line = Some (join '','' es) \<longrightarrow>
        try_update_lang_tags g line Config0 =
          Inr (Config0\<lparr>lang_tags := TagList (map remove_spaces es)\<rparr>)"
    by (simp add: try_update_lang_tags_def check_duplicate_config_value_def Config0_def sd)
  have 2: "\<exists>cfg. extract_config_from_yml repr
               (YDict ((''mmg'', YDict ((''lang_tags'', YStr (join '','' es)) # m)) # kvs)) = Inr cfg \<and>
            lang_tags cfg = TagList (map remove_spaces es)"
    using extract_yml_lang_tags [of repr "YStr (join '','' es)" m kvs]
    by (simp add: yml_lang_tags_def sd)
  have 3: "\<exists>cfg. extract_config_from_yml repr
               (YDict ((''mmg'', YDict ((''lang_tags'', YList (map YStr xs)) # m)) # kvs)) = Inr cfg \<and>
            lang_tags cfg = TagList (map strip xs)"
    using extract_yml_lang_tags [of repr "YList (map YStr xs)" m kvs]
    by (simp add: yml_lang_tags_def py_str_def comp_def)
  show ?thesis using 1 2 3 by blast
qed

lemma strip_en: "strip ''en US'' = ''en US''" "strip ''fr'' = ''fr''" "strip '' fr'' = ''fr''"
  by code_simp+

lemma block_lang_tags_en_fr:
  "lang_tags_search block_grammar ''<!-- lang_tags: en, fr -->'' = Some ''en, fr''"
  by code_simp

theorem lang_tags_normalisation_witness:
  "try_update_lang_tags block_grammar ''<!-- lang_tags: en, fr -->'' Config0 =
     Inr (Config0\<lparr>lang_tags := TagList [''en'', ''fr'']\<rparr>) \<and>
   (\<exists>cfg. extract_config_from_yml (\<lambda>_. [])
            (YDict [(''mmg'', YDict [(''lang_tags'', YStr ''en, fr'')])]) = Inr cfg \<and>
         lang_tags cfg = TagList [''en'', ''fr'']) \<and>
   (\<exists>cfg. extract_config_from_yml (\<lambda>_. [])
            (YDict [(''mmg'', YDict [(''lang_tags'', YList [YStr ''en'', YStr '' fr''])])]) = Inr cfg \<and>
         lang_tags cfg = TagList [''en'', ''fr''])"
  using lang_tags_normalisation
          [of "[''en'', '' fr'']" block_grammar "''<!-- lang_tags: en, fr -->''"
              "\<lambda>_. []" "[]" "[]" "[''en'', '' fr'']"]
  by (simp add: remove_spaces_def block_lang_tags_en_fr strip_en strip_plain)

theorem lang_tags_interior_space_counterexample:
  "extract_config_from_yml (\<lambda>_. []) (YDict [(''mmg'', YDict [(''lang_tags'', YStr ''en US,fr'')])]) =
     Inr \<lparr>lang_tags = TagList [''enUS'', ''fr''], no_suffix = None\<rparr> \<and>
   map strip (split_on CHR '','' ''en US,fr'') = [''en US'', ''fr'']"
  by (simp add: extract_yml_lang_tags_only yml_lang_tags_def remove_spaces_def strip_en)

text \<open>
  C8, as the code behaves. For a non-empty sequence of entries that contain no comma and lose
  exactly their surrounding whitespace when their space characters are removed,
  \<open>extract_config_from_yml\<close> yields the same result for the comma-joined string
  and for the explicit list.
\<close>

theorem yml_string_list_agree:
  assumes "es \<noteq> []"
    and "\<forall>e\<in>set es. CHR '','' \<notin> set e \<and> remove_spaces e = strip e"
  shows "extract_config_from_yml repr
           (YDict ((''mmg'', YDict ((''lang_tags'', YStr (join '','' es)) # m)) # kvs)) =
         extract_config_from_yml repr
           (YDict ((''mmg'', YDict ((''lang_tags'', YList (map YStr es)) # m)) # kvs))"
proof -
  have "split_on CHR '','' (remove_spaces (join '','' es)) = map remove_spaces es"
    using assms by (intro split_declared) auto
  moreover have "map remove_spaces es = map strip es"
    using assms(2) by simp
  ultimately have "yml_lang_tags repr (YStr (join '','' es)) = yml_lang_tags repr (YList (map YStr es))"
    by (simp add: yml_lang_tags_def py_str_def)
  then show ?thesis
    by (simp add: extract_config_from_yml_def Let_def)
qed

theorem yml_string_list_agree_witness:
  "extract_config_from_yml (\<lambda>_. [])
     (YDict [(''mmg'', YDict [(''lang_tags'', YStr ''en,es'')])]) =
   extract_config_from_yml (\<lambda>_. [])
     (YDict [(''mmg'', YDict [(''lang_tags'', YList [YStr ''en'', YStr ''es''])])])"
  using yml_string_list_agree [of "[''en'', ''es'']" "\<lambda>_. []" "[]" "[]"]
  by (simp add: remove_spaces_def strip_plain)

theorem yml_string_list_differ_counterexample:
  "extract_config_from_yml (\<lambda>_. [])
     (YDict [(''mmg'', YDict [(''lang_tags'', YStr (join '','' [''a b'']))])]) \<noteq>
   extract_config_from_yml (\<lambda>_. [])
     (YDict [(''mmg'', YDict [(''lang_tags'', YList (map YStr [''a b'']))])])"
  by (simp add: extract_yml_lang_tags_only yml_lang_tags_def remove_spaces_def py_str_def strip_plain)

section \<open>Reserved keywords\<close>

lemma loop_lang_tags:
  "extract_loop g msk items cfg = Inr cfg' \<Longrightarrow>
   lang_tags cfg' =
     (if truthy_tags (lang_tags cfg) then lang_tags cfg
      else case filter (is_decl (lang_tags_search g) g msk) items of
             [] \<Rightarrow> lang_tags cfg
           | (i, l) # _ \<Rightarrow> lang_tags (after_line g l cfg))"
proof (induction items arbitrary: cfg)
  case Nil
  then show ?case by simp
next
  case (Cons a items)
  obtain i l where a: "a = (i, l)" by (cases a)
  show ?case
  proof (cases "\<not> msk ! i \<and> comment_match g l")
    case False
    then have "extract_loop g msk items cfg = Inr cfg'"
      using Cons.prems by (auto simp: a split: if_splits)
    moreover have "filter (is_decl s g msk) (a # items) = filter (is_decl s g msk) items" for s
      using False by (auto simp: a is_decl_def)
    ultimately show ?thesis using Cons.IH [of cfg] by simp
  next
    case True
    let ?cfg = "after_line g l cfg"
    have ok: "\<not> (lang_tags_search g l \<noteq> None \<and> truthy_tags (lang_tags cfg))"
      and step: "extract_loop g msk items ?cfg = Inr cfg'"
      using Cons.prems True
      by (auto simp add: a extract_loop_Cons line_step_cases simp del: extract_loop.simps
               split: if_splits)
    have L: "filter (is_decl (lang_tags_search g) g msk) (a # items) =
               (if lang_tags_search g l \<noteq> None then a # filter (is_decl (lang_tags_search g) g msk) items
                else filter (is_decl (lang_tags_search g) g msk) items)"
      using True by (simp add: a is_decl_def)
    show ?thesis
      using Cons.IH [OF step] ok unfolding L
      by (auto simp: truthy_after_lt a after_line_def split_on_not_Nil split: option.splits list.splits)
  qed
qed

lemma md_lang_tags:
  assumes "extract_config_from_md g flags doc = Inr cfg"
    and "decls (lang_tags_search g) g (flags doc) doc = (i, l) # rest"
    and "lang_tags_search g l = Some p"
  shows "lang_tags cfg = TagList (split_on CHR '','' (remove_spaces p))"
  using loop_lang_tags [OF assms(1) [unfolded extract_config_from_md_def]] assms(2,3)
  by (simp add: decls_def Config0_def after_line_def)

text \<open>
  C5, as the code behaves. Extraction does not filter reserved keywords: a reserved keyword is a
  member of the extracted \<open>lang_tags\<close> exactly when the declaration that is
  recorded lists it, after the normalisation of its entries.
\<close>

theorem reserved_keywords_not_filtered:
  "\<forall>k\<in>set RESERVED_KEYWORDS.
     (extract_config_from_md g flags doc = Inr cfg \<longrightarrow>
      decls (lang_tags_search g) g (flags doc) doc = (i, l) # rest \<longrightarrow>
      lang_tags_search g l = Some p \<longrightarrow>
        (\<exists>ts. lang_tags cfg = TagList ts \<and>
              (k \<in> set ts \<longleftrightarrow> k \<in> set (split_on CHR '','' (remove_spaces p))))) \<and>
     (cells nb = Some cs \<longrightarrow> md_sources cs = Inr srcs \<longrightarrow>
      extract_config_from_jupyter g flags nb = Inr cfg \<longrightarrow>
      decls (lang_tags_search g) g (flags (concat (map iter_source srcs)))
            (concat (map iter_source srcs)) = (i, l) # rest \<longrightarrow>
      lang_tags_search g l = Some p \<longrightarrow>
        (\<exists>ts. lang_tags cfg = TagList ts \<and>
              (k \<in> set ts \<longleftrightarrow> k \<in> set (split_on CHR '','' (remove_spaces p))))) \<and>
     (\<exists>c. extract_config_from_yml repr
             (YDict ((''mmg'', YDict ((''lang_tags'', YStr s) # m)) # kvs)) = Inr c \<and>
          (\<exists>ts. lang_tags c = TagList ts \<and>
                (k \<in> set ts \<longleftrightarrow> k \<in> set (split_on CHR '','' (remove_spaces s))))) \<and>
     (\<exists>c. extract_config_from_yml repr
             (YDict ((''mmg'', YDict ((''lang_tags'', YList (map YStr xs)) # m)) # kvs)) = Inr c \<and>
          (\<exists>ts. lang_tags c = TagList ts \<and> (k \<in> set ts \<longleftrightarrow> k \<in> strip ` set xs)))"
proof
  fix k assume "k \<in> set RESERVED_KEYWORDS"
  have 1: "extract_config_from_md g flags doc = Inr cfg \<longrightarrow>
      decls (lang_tags_search g) g (flags doc) doc = (i, l) # rest \<longrightarrow>
      lang_tags_search g l = Some p \<longrightarrow>
        (\<exists>ts. lang_tags cfg = TagList ts \<and>
              (k \<in> set ts \<longleftrightarrow> k \<in> set (split_on CHR '','' (remove_spaces p))))"
    using md_lang_tags [of g flags doc cfg i l rest p] by simp
  have 2: "cells nb = Some cs \<longrightarrow> md_sources cs = Inr srcs \<longrightarrow>
      extract_config_from_jupyter g flags nb = Inr cfg \<longrightarrow>
      decls (lang_tags_search g) g (flags (concat (map iter_source srcs)))
            (concat (map iter_source srcs)) = (i, l) # rest \<longrightarrow>
      lang_tags_search g l = Some p \<longrightarrow>
        (\<exists>ts. lang_tags cfg = TagList ts \<and>
              (k \<in> set ts \<longleftrightarrow> k \<in> set (split_on CHR '','' (remove_spaces p))))"
    using md_lang_tags [of g flags "concat (map iter_source srcs)" cfg i l rest p]
    by (simp add: extract_config_from_jupyter_def)
  have 3: "\<exists>c. extract_config_from_yml repr
             (YDict ((''mmg'', YDict ((''lang_tags'', YStr s) # m)) # kvs)) = Inr c \<and>
          (\<exists>ts. lang_tags c = TagList ts \<and>
                (k \<in> set ts \<longleftrightarrow> k \<in> set (split_on CHR '','' (remove_spaces s))))"
    using extract_yml_lang_tags [of repr "YStr s" m kvs] by (auto simp: yml_lang_tags_def)
  have 4: "\<exists>c. extract_config_from_yml repr
             (YDict ((''mmg'', YDict ((''lang_tags'', YList (map YStr xs)) # m)) # kvs)) = Inr c \<and>
          (\<exists>ts. lang_tags c = TagList ts \<and> (k \<in> set ts \<longleftrightarrow> k \<in> strip ` set xs))"
    using extract_yml_lang_tags [of repr "YList (map YStr xs)" m kvs]
    by (auto simp: yml_lang_tags_def py_str_def comp_def)
  show "(extract_config_from_md g flags doc = Inr cfg \<longrightarrow>
      decls (lang_tags_search g) g (flags doc) doc = (i, l) # rest \<longrightarrow>
      lang_tags_search g l = Some p \<longrightarrow>
        (\<exists>ts. lang_tags cfg = TagList ts \<and>
              (k \<in> set ts \<longleftrightarrow> k \<in> set (split_on CHR '','' (remove_spaces p))))) \<and>
     (cells nb = Some cs \<longrightarrow> md_sources cs = Inr srcs \<longrightarrow>
      extract_config_from_jupyter g flags nb = Inr cfg \<longrightarrow>
      decls (lang_tags_search g) g (flags (concat (map iter_source srcs)))
            (concat (map iter_source srcs)) = (i, l) # rest \<longrightarrow>
      lang_tags_search g l = Some p \<longrightarrow>
        (\<exists>ts. lang_tags cfg = TagList ts \<and>
              (k \<in> set ts \<longleftrightarrow> k \<in> set (split_on CHR '','' (remove_spaces p))))) \<and>
     (\<exists>c. extract_config_from_yml repr
             (YDict ((''mmg'', YDict ((''lang_tags'', YStr s) # m)) # kvs)) = Inr c \<and>
          (\<exists>ts. lang_tags c = TagList ts \<and>
                (k \<in> set ts \<longleftrightarrow> k \<in> set (split_on CHR '','' (remove_spaces s))))) \<and>
     (\<exists>c. extract_config_from_yml repr
             (YDict ((''mmg'', YDict ((''lang_tags'', YList (map YStr xs)) # m)) # kvs)) = Inr c \<and>
          (\<exists>ts. lang_tags c = TagList ts \<and> (k \<in> set ts \<longleftrightarrow> k \<in> strip ` set xs)))"
    using 1 2 3 4 by blast
qed

lemma strip_common: "strip ''common'' = ''common''"
  by code_simp

theorem reserved_keywords_not_filtered_witness:
  "\<exists>c. extract_config_from_yml (\<lambda>_. [])
          (YDict [(''mmg'', YDict [(''lang_tags'', YList [YStr ''en'', YStr ''common''])])]) = Inr c \<and>
       (\<exists>ts. lang_tags c = TagList ts \<and> ''common'' \<in> set ts)"
  using reserved_keywords_not_filtered
          [where repr = "\<lambda>_. []" and xs = "[''en'', ''common'']" and m = "[]" and kvs = "[]"]
  by (simp add: RESERVED_KEYWORDS_def strip_common strip_plain)

theorem reserved_keyword_extracted_counterexample:
  "extract_config_from_yml (\<lambda>_. [])
     (YDict [(''mmg'', YDict [(''lang_tags'', YList [YStr ''en'', YStr ''common''])])]) =
     Inr \<lparr>lang_tags = TagList [''en'', ''common''], no_suffix = None\<rparr> \<and>
   ''common'' \<in> set RESERVED_KEYWORDS"
  by (simp add: extract_yml_lang_tags_only yml_lang_tags_def py_str_def strip_common strip_plain
        RESERVED_KEYWORDS_def)

section \<open>The gate\<close>

lemma health_check_blocks:
  "hc base c ext = (status, msgs) \<Longrightarrow> status \<noteq> HEALTHY \<Longrightarrow>
   health_check hc base c ext False False = Inl (BadConfigError (health_check_failed status msgs))"
  by (simp add: health_check_def)

text \<open>
  C2, as the code behaves. For each of the four entry points, when the health check is neither
  skipped nor overridden and its verdict is not HEALTHY, the call raises before any
  classification: the result is the error, whatever the document holds. The error is a
  BadConfigError, the type of the configuration error, and its message carries the
  name of the verdict and the diagnostic messages in order, joined by newlines.
\<close>

theorem health_check_gate_raises:
  "(cfg_or cfg (extract_config_from_md g flags base_doc) = Inr c \<longrightarrow>
    hc_md base_doc c ''md'' = (status, msgs) \<longrightarrow> status \<noteq> HEALTHY \<longrightarrow>
      convert_base_doc g flags hc_md toc base_doc cfg False False =
        Inl (BadConfigError (health_check_failed status msgs))) \<and>
   (cfg_or cfg (extract_config_from_md g flags (splitlines base_md)) = Inr c \<longrightarrow>
    hc_md (splitlines base_md) c ''md'' = (status, msgs) \<longrightarrow> status \<noteq> HEALTHY \<longrightarrow>
      convert g flags hc_md toc base_md cfg False False =
        Inl (BadConfigError (health_check_failed status msgs))) \<and>
   (cfg_or cfg (extract_config_from_jupyter g flags base_jn) = Inr c \<longrightarrow>
    hc_jn base_jn c ''ipynb'' = (status, msgs) \<longrightarrow> status \<noteq> HEALTHY \<longrightarrow>
      convert_base_jupyter g flags hc_jn toc_jn base_jn cfg False False =
        Inl (BadConfigError (health_check_failed status msgs))) \<and>
   (cfg_or cfg (extract_config_from_yml repr base_yml) = Inr c \<longrightarrow>
    hc_yml base_yml c ''yml'' = (status, msgs) \<longrightarrow> status \<noteq> HEALTHY \<longrightarrow>
      convert_base_yml g repr hc_yml base_yml cfg False False =
        Inl (BadConfigError (health_check_failed status msgs)))"
  by (simp add: convert_base_doc_def convert_def convert_base_jupyter_def convert_base_yml_def
        health_check_blocks)

theorem health_check_gate_raises_witness:
  "convert_base_yml block_grammar (\<lambda>_. []) hc_missing (YDict [(''title'', YStr ''Hello'')])
      (Some cfg_en_es) False False =
     Inl (BadConfigError (health_check_failed UNHEALTHY [''es: no marker'', ''second message'']))"
  using health_check_gate_raises
          [where cfg = "Some cfg_en_es" and c = cfg_en_es and hc_yml = hc_missing
             and status = UNHEALTHY and msgs = "[''es: no marker'', ''second message'']"
             and base_yml = "YDict [(''title'', YStr ''Hello'')]" and g = block_grammar
             and repr = "\<lambda>_. []"]
  by (simp add: cfg_or_def hc_missing_def)

theorem health_check_error_type_counterexample:
  "convert_base_doc block_grammar (flag_code_block_lines block_grammar) hc_missing id
      [''<!-- [en] -->'', ''Hello''] (Some cfg_en_es) False False =
     Inl (BadConfigError
       (''Health check failed.'' @ NL @ '' - Status: UNHEALTHY'' @ NL @ '' - Error:'' @ NL @
        ''es: no marker'' @ NL @ ''second message''))"
  by (simp add: convert_base_doc_def cfg_or_def health_check_def hc_missing_def
        health_check_failed_def)

section \<open>Keys of the results\<close>

lemma keys_setitem:
  "map fst (setitem d k v) = (if k \<in> fst ` set d then map fst d else map fst d @ [k])"
  by (induction d) (fastforce simp: image_iff)+

lemma keys_setitem_present: "k \<in> fst ` set d \<Longrightarrow> map fst (setitem d k v) = map fst d"
  by (simp add: keys_setitem)

lemma keys_foldl_setitem:
  "map fst (foldl (\<lambda>d k. setitem d k (f k)) d ks) = add_keys (map fst d) ks"
  by (induction ks arbitrary: d) (auto simp: keys_setitem)

lemma keys_dict_comp: "map fst (dict_comp f ks) = first_occurrences ks"
  by (simp add: dict_comp_def first_occurrences_def keys_foldl_setitem)

lemma add_keys_distinct:
  "distinct (acc @ ks) \<Longrightarrow> add_keys acc ks = acc @ ks"
  by (induction ks arbitrary: acc) auto

lemma first_occurrences_distinct: "distinct ks \<Longrightarrow> first_occurrences ks = ks"
  using add_keys_distinct [of "[]" ks] by (simp add: first_occurrences_def)

lemma set_add_keys: "set (add_keys acc ks) = set acc \<union> set ks"
  by (induction ks arbitrary: acc) auto

lemma distinct_add_keys: "distinct acc \<Longrightarrow> distinct (add_keys acc ks)"
  by (induction ks arbitrary: acc) auto

lemma set_first_occurrences: "set (first_occurrences ks) = set ks"
  by (simp add: first_occurrences_def set_add_keys)

lemma distinct_first_occurrences: "distinct (first_occurrences ks)"
  by (simp add: first_occurrences_def distinct_add_keys)

lemma getitem_Inr: "getitem d k = Inr v \<Longrightarrow> k \<in> fst ` set d"
  by (auto simp: getitem_def split: option.splits dest: map_of_SomeD intro: rev_image_eqI)

lemma keys_set_field: "set_field rd lang key v = Inr rd' \<Longrightarrow> map fst rd' = map fst rd"
proof -
  assume a: "set_field rd lang key v = Inr rd'"
  then obtain d where g: "getitem rd lang = Inr (YDict d)"
    and r: "rd' = setitem rd lang (YDict (setitem d key v))"
    by (auto simp: set_field_def split: sum.splits yml.splits)
  show ?thesis using getitem_Inr [OF g] by (simp add: r keys_setitem_present)
qed

lemma keys_append_item: "append_item rd lang v = Inr rd' \<Longrightarrow> map fst rd' = map fst rd"
proof -
  assume a: "append_item rd lang v = Inr rd'"
  then obtain xs where g: "getitem rd lang = Inr (YList xs)"
    and r: "rd' = setitem rd lang (YList (xs @ [v]))"
    by (auto simp: append_item_def split: sum.splits yml.splits)
  show ?thesis using getitem_Inr [OF g] by (simp add: r keys_setitem_present)
qed

lemma keys_assign_copies:
  "assign_copies langs key v rd = Inr rd' \<Longrightarrow> map fst rd' = map fst rd"
  by (induction langs arbitrary: rd) (auto split: sum.splits dest: keys_set_field)

lemma keys_assign_processed:
  "assign_processed langs key processed rd = Inr rd' \<Longrightarrow> map fst rd' = map fst rd"
  by (induction langs arbitrary: rd) (auto split: sum.splits dest: keys_set_field)

lemma keys_append_processed:
  "append_processed langs processed rd = Inr rd' \<Longrightarrow> map fst rd' = map fst rd"
  by (induction langs arbitrary: rd) (auto split: sum.splits dest: keys_append_item)

lemma keys_joined_docs:
  "joined_docs ds langs rd = Inr rd' \<Longrightarrow> map fst rd' = add_keys (map fst rd) langs"
  by (induction langs arbitrary: rd) (auto simp: keys_setitem split: sum.splits)

lemma keys_process_fields:
  "process_fields g tags kvs rd = Inr rd' \<Longrightarrow> map fst rd' = map fst rd"
proof (induction kvs arbitrary: rd)
  case Nil
  then show ?case by simp
next
  case (Cons a kvs)
  obtain key v where a: "a = (key, v)" by (cases a)
  show ?case
    using Cons.prems Cons.IH
    by (auto simp: a split: if_splits sum.splits
             dest!: keys_assign_copies keys_assign_processed)
qed

lemma keys_process_list:
  "process_list g tags xs rd = Inr rd' \<Longrightarrow> map fst rd' = map fst rd"
proof (induction xs arbitrary: rd)
  case Nil
  then show ?case by simp
next
  case (Cons x xs)
  show ?case
    using Cons.prems Cons.IH
    by (auto split: sum.splits dest!: keys_append_processed)
qed

lemma keys_process_obj:
  "process_obj g tags obj = Inr out \<Longrightarrow> map fst out = first_occurrences tags"
proof (cases obj)
  case (YDict kvs)
  assume "process_obj g tags obj = Inr out"
  then show ?thesis
    using keys_process_fields [of g tags kvs "dict_comp (\<lambda>_. YDict []) tags" out]
    by (simp add: YDict keys_dict_comp)
next
  case (YList xs)
  assume "process_obj g tags obj = Inr out"
  then show ?thesis
    using keys_process_list [of g tags xs "dict_comp (\<lambda>_. YList []) tags" out]
    by (simp add: YList keys_dict_comp)
next
  case (YStr s)
  assume "process_obj g tags obj = Inr out"
  then show ?thesis
    using keys_joined_docs [of "classify g tags (splitlines s)" tags "[]" out]
    by (simp add: YStr first_occurrences_def)
next
  case (YScalar sc)
  assume "process_obj g tags obj = Inr out"
  then show ?thesis by (auto simp: YScalar keys_dict_comp)
qed

lemma keys_route: "map fst (route tags active line ds) = map fst ds"
  by (auto simp: route_def)

lemma keys_classify_from: "map fst (classify_from g tags active ds lines) = map fst ds"
  by (induction lines arbitrary: active ds) (auto simp: keys_route split: option.splits)

lemma keys_classify: "map fst (classify g tags lines) = first_occurrences tags"
  by (simp add: classify_def empty_docs_def keys_classify_from keys_dict_comp)

lemma keys_insert_toc: "map fst (insert_toc toc ds) = map fst ds"
  by (auto simp: insert_toc_def)

lemma keys_foldl_setitem_pairs:
  "map fst (foldl (\<lambda>d (k, x). setitem d k (f x)) d kxs) = add_keys (map fst d) (map fst kxs)"
  by (induction kxs arbitrary: d) (fastforce simp: keys_setitem)+

lemma add_keys_first_occurrences:
  "add_keys [] (first_occurrences ks) = first_occurrences ks"
  using add_keys_distinct [of "[]" "first_occurrences ks"]
  by (simp add: distinct_first_occurrences)

lemma keys_push: "push g tags c nbs = Inr nbs' \<Longrightarrow> map fst nbs' = map fst nbs"
  by (auto simp: push_def Let_def split: option.splits if_splits)

lemma keys_push_all: "push_all g tags cs nbs = Inr nbs' \<Longrightarrow> map fst nbs' = map fst nbs"
  by (induction cs arbitrary: nbs) (auto split: sum.splits dest!: keys_push)

section \<open>Order of the outputs\<close>

lemma convert_base_yml_keys:
  "cfg_or cfg (extract_config_from_yml repr base_yml) = Inr c \<Longrightarrow>
   iter_tags (lang_tags c) = Inr tags \<Longrightarrow>
   convert_base_yml g repr hc base_yml cfg skip force = Inr out \<Longrightarrow>
   map fst out = first_occurrences tags"
  by (auto simp: convert_base_yml_def split: sum.splits dest: keys_process_obj)

lemma convert_base_doc_keys:
  "cfg_or cfg (extract_config_from_md g flags base_doc) = Inr c \<Longrightarrow>
   iter_tags (lang_tags c) = Inr tags \<Longrightarrow>
   convert_base_doc g flags hc toc base_doc cfg skip force = Inr out \<Longrightarrow>
   map fst out = first_occurrences tags"
  by (auto simp: convert_base_doc_def keys_insert_toc keys_classify split: sum.splits)

lemma convert_keys:
  assumes "cfg_or cfg (extract_config_from_md g flags (splitlines base_md)) = Inr c"
    and "iter_tags (lang_tags c) = Inr tags"
    and "convert g flags hc toc base_md cfg skip force = Inr out"
  shows "map fst out = first_occurrences tags"
proof -
  obtain ds where ds: "convert_base_doc g flags hc toc (splitlines base_md) cfg skip force = Inr ds"
    and out: "out = foldl (\<lambda>d (lang, doc). setitem d lang (join NL doc)) [] ds"
    using assms(3) by (auto simp: convert_def split: sum.splits)
  have "map fst ds = first_occurrences tags"
    using convert_base_doc_keys [OF assms(1,2) ds] .
  then show ?thesis
    by (simp add: out keys_foldl_setitem_pairs add_keys_first_occurrences)
qed

lemma convert_base_jupyter_keys:
  "cfg_or cfg (extract_config_from_jupyter g flags base_jn) = Inr c \<Longrightarrow>
   iter_tags (lang_tags c) = Inr tags \<Longrightarrow>
   convert_base_jupyter g flags hc toc base_jn cfg skip force = Inr out \<Longrightarrow>
   map fst out = first_occurrences tags"
  by (auto simp: convert_base_jupyter_def init_targets_def keys_dict_comp comp_def case_prod_unfold
           split: sum.splits option.splits dest!: keys_push_all)

text \<open>
  C7. The extracted \<open>lang_tags\<close> are the declared entries, normalised, in the
  order of the declaration, and the keys of every conversion result are the declared
  tags in that order (a tag declared twice keeps the place of its first occurrence).
\<close>

theorem declared_order_preserved:
  "(es \<noteq> [] \<longrightarrow> (\<forall>e\<in>set es. CHR '','' \<notin> set e) \<longrightarrow>
      lang_tags_search g line = Some (join '','' es) \<longrightarrow>
        try_update_lang_tags g line Config0 =
          Inr (Config0\<lparr>lang_tags := TagList (map remove_spaces es)\<rparr>)) \<and>
   yml_lang_tags repr (YList (map YStr xs)) = TagList (map strip xs) \<and>
   (cfg_or cfg (extract_config_from_md g flags base_doc) = Inr c \<longrightarrow>
    iter_tags (lang_tags c) = Inr tags \<longrightarrow>
    convert_base_doc g flags hc_md toc base_doc cfg skip force = Inr out_doc \<longrightarrow>
      map fst out_doc = first_occurrences tags) \<and>
   (cfg_or cfg (extract_config_from_md g flags (splitlines base_md)) = Inr c \<longrightarrow>
    iter_tags (lang_tags c) = Inr tags \<longrightarrow>
    convert g flags hc_md toc base_md cfg skip force = Inr out_md \<longrightarrow>
      map fst out_md = first_occurrences tags) \<and>
   (cfg_or cfg (extract_config_from_jupyter g flags base_jn) = Inr c \<longrightarrow>
    iter_tags (lang_tags c) = Inr tags \<longrightarrow>
    convert_base_jupyter g flags hc_jn toc_jn base_jn cfg skip force = Inr out_jn \<longrightarrow>
      map fst out_jn = first_occurrences tags) \<and>
   (cfg_or cfg (extract_config_from_yml repr base_yml) = Inr c \<longrightarrow>
    iter_tags (lang_tags c) = Inr tags \<longrightarrow>
    convert_base_yml g repr hc_yml base_yml cfg skip force = Inr out_yml \<longrightarrow>
      map fst out_yml = first_occurrences tags) \<and>
   (distinct tags \<longrightarrow> first_occurrences tags = tags)"
proof -
  have 1: "es \<noteq> [] \<longrightarrow> (\<forall>e\<in>set es. CHR '','' \<notin> set e) \<longrightarrow>
      lang_tags_search g line = Some (join '','' es) \<longrightarrow>
        try_update_lang_tags g line Config0 =
          Inr (Config0\<lparr>lang_tags := TagList (map remove_spaces es)\<rparr>)"
    by (simp add: try_update_lang_tags_def check_duplicate_config_value_def Config0_def
          split_declared)
  have 2: "yml_lang_tags repr (YList (map YStr xs)) = TagList (map strip xs)"
    by (simp add: yml_lang_tags_def py_str_def comp_def)
  have 3: "cfg_or cfg (extract_config_from_md g flags base_doc) = Inr c \<longrightarrow>
    iter_tags (lang_tags c) = Inr tags \<longrightarrow>
    convert_base_doc g flags hc_md toc base_doc cfg skip force = Inr out_doc \<longrightarrow>
      map fst out_doc = first_occurrences tags"
    using convert_base_doc_keys by blast
  have 4: "cfg_or cfg (extract_config_from_md g flags (splitlines base_md)) = Inr c \<longrightarrow>
    iter_tags (lang_tags c) = Inr tags \<longrightarrow>
    convert g flags hc_md toc base_md cfg skip force = Inr out_md \<longrightarrow>
      map fst out_md = first_occurrences tags"
    using convert_keys by blast
  have 5: "cfg_or cfg (extract_config_from_jupyter g flags base_jn) = Inr c \<longrightarrow>
    iter_tags (lang_tags c) = Inr tags \<longrightarrow>
    convert_base_jupyter g flags hc_jn toc_jn base_jn cfg skip force = Inr out_jn \<longrightarrow>
      map fst out_jn = first_occurrences tags"
    using convert_base_jupyter_keys by blast
  have 6: "cfg_or cfg (extract_config_from_yml repr base_yml) = Inr c \<longrightarrow>
    iter_tags (lang_tags c) = Inr tags \<longrightarrow>
    convert_base_yml g repr hc_yml base_yml cfg skip force = Inr out_yml \<longrightarrow>
      map fst out_yml = first_occurrences tags"
    using convert_base_yml_keys by blast
  have 7: "distinct tags \<longrightarrow> first_occurrences tags = tags"
    using first_occurrences_distinct by blast
  show ?thesis
    by (intro conjI) (rule 1 2 3 4 5 6 7)+
qed

lemma convert_items_tree:
  "convert_base_yml block_grammar (\<lambda>_. []) hc_missing items_tree None True False =
     Inr [(''en'', YDict [(''mmg'', YDict [(''lang_tags'', YList [YStr ''en'', YStr ''fr''])]),
                         (''items'', YList [YStr ''A''])]),
          (''fr'', YDict [(''mmg'', YDict [(''lang_tags'', YList [YStr ''en'', YStr ''fr''])]),
                         (''items'', YList [YStr ''B''])])]"
  by code_simp

lemma extract_items_tree:
  "extract_config_from_yml (\<lambda>_. []) items_tree =
     Inr \<lparr>lang_tags = TagList [''en'', ''fr''], no_suffix = None\<rparr>"
  by code_simp

theorem declared_order_preserved_witness:
  "\<exists>out. convert_base_yml block_grammar (\<lambda>_. []) hc_missing items_tree None True False = Inr out \<and>
         map fst out = [''en'', ''fr'']"
  using declared_order_preserved
          [where cfg = None and repr = "\<lambda>_. []" and base_yml = items_tree
             and c = "\<lparr>lang_tags = TagList [''en'', ''fr''], no_suffix = None\<rparr>"
             and tags = "[''en'', ''fr'']" and g = block_grammar and hc_yml = hc_missing
             and skip = True and force = False]
  by (simp add: cfg_or_def extract_items_tree convert_items_tree)

section \<open>Classification\<close>

lemma map_of_setitem: "map_of (setitem d k v) = (map_of d)(k \<mapsto> v)"
  by (induction d) (auto simp: fun_eq_iff)

lemma map_of_foldl_setitem:
  "map_of (foldl (\<lambda>d k. setitem d k (f k)) d ks) k =
     (if k \<in> set ks then Some (f k) else map_of d k)"
  by (induction ks arbitrary: d) (auto simp: map_of_setitem)

lemma map_of_dict_comp: "map_of (dict_comp f ks) k = (if k \<in> set ks then Some (f k) else None)"
  by (simp add: dict_comp_def map_of_foldl_setitem)

lemma map_of_map_entries:
  "map_of (map (\<lambda>(t, d). (t, f t d)) ds) k = map_option (f k) (map_of ds k)"
  by (induction ds) auto

lemma map_of_route:
  "map_of (route tags active line ds) t =
     map_option (\<lambda>d. d @ (if routes tags active t then [line] else [])) (map_of ds t)"
proof -
  have a: "map_of (map (\<lambda>(t, d). (t, d @ [line])) ds) t = map_option (\<lambda>d. d @ [line]) (map_of ds t)"
    using map_of_map_entries [of "\<lambda>t d. d @ [line]" ds t] by simp
  have b: "map_of (map (\<lambda>(t, d). if t = active then (t, d @ [line]) else (t, d)) ds) t =
             map_option (\<lambda>d. if t = active then d @ [line] else d) (map_of ds t)"
    using map_of_map_entries [of "\<lambda>t d. if t = active then d @ [line] else d" ds t]
    by (simp add: case_prod_unfold if_distrib [of "Pair _"] cong: if_cong)
  show ?thesis
    unfolding route_def routes_def
    by (cases "map_of ds t") (auto simp: a b)
qed

lemma map_of_classify_from:
  "map_of (classify_from g tags active ds lines) t =
     map_option (\<lambda>d. d @ emitted g tags active t lines) (map_of ds t)"
proof (induction lines arbitrary: active ds)
  case Nil
  then show ?case by (simp add: option.map_ident)
next
  case (Cons line rest)
  show ?case
    by (cases "tag_search g line")
       (simp_all add: Cons.IH map_of_route option.map_comp comp_def)
qed

lemma emitted_append:
  "emitted g tags active t (pre @ post) =
     emitted g tags active t pre @ emitted g tags (active_after g active pre) t post"
  by (induction pre arbitrary: active) (auto split: option.splits)

lemma map_of_classify:
  "t \<in> set tags \<Longrightarrow>
   map_of (classify_from g tags active (empty_docs tags) lines) t =
     Some (emitted g tags active t lines)"
  by (simp add: map_of_classify_from empty_docs_def map_of_dict_comp)

text \<open>
  C1. A content line \<open>l\<close> that follows the lines \<open>pre\<close> is classified under the
  active tag \<open>a\<close> that \<open>pre\<close> leaves. With \<open>X\<close> the output of \<open>pre\<close> for a
  declared tag \<open>t\<close> and \<open>Y\<close> what the lines after \<open>l\<close> add to it: if \<open>a\<close> is a
  declared tag and no reserved keyword, the output of \<open>t\<close> is \<open>X\<close>, then \<open>l\<close>
  exactly when \<open>t = a\<close>, then \<open>Y\<close>; if \<open>a\<close> is \<open>common\<close> it is \<open>X\<close>, \<open>l\<close>,
  \<open>Y\<close> for every declared tag; if \<open>a\<close> is \<open>ignore\<close> it is \<open>X\<close>, \<open>Y\<close>.
\<close>

theorem classify_round_trip:
  assumes "tag_search g l = None" and "t \<in> set tags"
    and "a = active_after g UNKNOWN pre"
  shows "\<exists>X Y. map_of (classify g tags pre) t = Some X \<and>
           map_of (classify_from g tags a (empty_docs tags) post) t = Some Y \<and>
           (a \<in> set tags \<and> a \<notin> set RESERVED_KEYWORDS \<longrightarrow>
              map_of (classify g tags (pre @ l # post)) t =
                Some (X @ (if t = a then [l] else []) @ Y)) \<and>
           (a = ''common'' \<longrightarrow>
              map_of (classify g tags (pre @ l # post)) t = Some (X @ [l] @ Y)) \<and>
           (a = ''ignore'' \<longrightarrow>
              map_of (classify g tags (pre @ l # post)) t = Some (X @ Y))"
proof -
  let ?X = "emitted g tags UNKNOWN t pre"
  let ?Y = "emitted g tags a t post"
  have X: "map_of (classify g tags pre) t = Some ?X"
    using assms(2) by (simp add: classify_def map_of_classify)
  have Y: "map_of (classify_from g tags a (empty_docs tags) post) t = Some ?Y"
    using assms(2) by (simp add: map_of_classify)
  have all: "map_of (classify g tags (pre @ l # post)) t =
               Some (?X @ (if routes tags a t then [l] else []) @ ?Y)"
    using assms by (simp add: classify_def map_of_classify emitted_append)
  have 1: "a \<in> set tags \<and> a \<notin> set RESERVED_KEYWORDS \<longrightarrow>
              map_of (classify g tags (pre @ l # post)) t =
                Some (?X @ (if t = a then [l] else []) @ ?Y)"
    unfolding all by (auto simp: routes_def RESERVED_KEYWORDS_def UNKNOWN_def)
  have 2: "a = ''common'' \<longrightarrow>
              map_of (classify g tags (pre @ l # post)) t = Some (?X @ [l] @ ?Y)"
    unfolding all by (simp add: routes_def)
  have 3: "a = ''ignore'' \<longrightarrow>
              map_of (classify g tags (pre @ l # post)) t = Some (?X @ ?Y)"
    unfolding all by (simp add: routes_def UNKNOWN_def)
  show ?thesis using X Y 1 2 3 by blast
qed

lemma classify_hello:
  "map_of (classify block_grammar [''en'', ''es'']
             [''<!-- [en] -->'', ''Hello'', ''<!-- [es] -->'', ''Hola'']) ''en'' = Some [''Hello'']"
  "map_of (classify block_grammar [''en'', ''es''] [''<!-- [en] -->'']) ''en'' = Some []"
  "map_of (classify_from block_grammar [''en'', ''es''] ''en'' (empty_docs [''en'', ''es''])
             [''<!-- [es] -->'', ''Hola'']) ''en'' = Some []"
  "tag_search block_grammar ''Hello'' = None"
  "active_after block_grammar UNKNOWN [''<!-- [en] -->''] = ''en''"
  by code_simp+

theorem classify_round_trip_witness:
  "map_of (classify block_grammar [''en'', ''es'']
             [''<!-- [en] -->'', ''Hello'', ''<!-- [es] -->'', ''Hola'']) ''en'' = Some [''Hello'']"
  using classify_round_trip
          [where g = block_grammar and l = "''Hello''" and t = "''en''" and tags = "[''en'', ''es'']"
             and a = "''en''" and pre = "[''<!-- [en] -->'']" and post = "[''<!-- [es] -->'', ''Hola'']"]
  by (simp add: classify_hello RESERVED_KEYWORDS_def)

section \<open>Tree conversion\<close>

lemma setitem_new: "k \<notin> fst ` set d \<Longrightarrow> setitem d k v = d @ [(k, v)]"
  by (induction d) auto

lemma foldl_setitem_distinct:
  "distinct ks \<Longrightarrow> set ks \<inter> fst ` set d = {} \<Longrightarrow>
   foldl (\<lambda>d k. setitem d k (f k)) d ks = d @ map (\<lambda>k. (k, f k)) ks"
proof (induction ks arbitrary: d)
  case Nil
  then show ?case by simp
next
  case (Cons k ks)
  have "setitem d k (f k) = d @ [(k, f k)]"
    using Cons.prems(2) by (intro setitem_new) auto
  moreover have "set ks \<inter> fst ` set (d @ [(k, f k)]) = {}"
    using Cons.prems by auto
  ultimately show ?case
    using Cons.IH [of "d @ [(k, f k)]"] Cons.prems(1) by simp
qed

lemma dict_comp_distinct: "distinct ks \<Longrightarrow> dict_comp f ks = map (\<lambda>k. (k, f k)) ks"
  using foldl_setitem_distinct [of ks "[]" f] by (simp add: dict_comp_def)

lemma map_of_table: "map_of (map (\<lambda>k. (k, F k)) ks) k = (if k \<in> set ks then Some (F k) else None)"
  by (induction ks) auto

lemma getitem_table: "k \<in> set ks \<Longrightarrow> getitem (map (\<lambda>k. (k, F k)) ks) k = Inr (F k)"
  by (simp add: getitem_def map_of_table)

lemma setitem_table:
  "distinct ks \<Longrightarrow> k \<in> set ks \<Longrightarrow>
   setitem (map (\<lambda>k. (k, F k)) ks) k v = map (\<lambda>j. (j, (F(k := v)) j)) ks"
  by (induction ks) auto

lemma set_field_table:
  "distinct ks \<Longrightarrow> lang \<in> set ks \<Longrightarrow>
   set_field (map (\<lambda>l. (l, YDict (A l))) ks) lang key v =
     Inr (map (\<lambda>l. (l, YDict ((A(lang := setitem (A lang) key v)) l))) ks)"
  using setitem_table [of ks lang "\<lambda>l. YDict (A l)" "YDict (setitem (A lang) key v)"]
        getitem_table [of lang ks "\<lambda>l. YDict (A l)"]
  by (simp add: set_field_def fun_upd_def if_distrib [of YDict] cong: if_cong)

lemma append_item_table:
  "distinct ks \<Longrightarrow> lang \<in> set ks \<Longrightarrow>
   append_item (map (\<lambda>l. (l, YList (B l))) ks) lang v =
     Inr (map (\<lambda>l. (l, YList ((B(lang := B lang @ [v])) l))) ks)"
  using setitem_table [of ks lang "\<lambda>l. YList (B l)" "YList (B lang @ [v])"]
        getitem_table [of lang ks "\<lambda>l. YList (B l)"]
  by (simp add: append_item_def fun_upd_def if_distrib [of YList] cong: if_cong)


lemma assign_copies_table:
  "distinct ks \<Longrightarrow> set langs \<subseteq> set ks \<Longrightarrow> distinct langs \<Longrightarrow>
   assign_copies langs key v (map (\<lambda>l. (l, YDict (A l))) ks) =
     Inr (map (\<lambda>l. (l, YDict (if l \<in> set langs then setitem (A l) key v else A l))) ks)"
proof (induction langs arbitrary: A)
  case Nil
  then show ?case by simp
next
  case (Cons lang langs)
  let ?A = "A(lang := setitem (A lang) key v)"
  have "assign_copies (lang # langs) key v (map (\<lambda>l. (l, YDict (A l))) ks) =
          assign_copies langs key v (map (\<lambda>l. (l, YDict (?A l))) ks)"
    using Cons.prems by (simp add: set_field_table)
  also have "\<dots> = Inr (map (\<lambda>l. (l, YDict (if l \<in> set langs then setitem (?A l) key v else ?A l))) ks)"
    using Cons.prems by (intro Cons.IH) auto
  also have "\<dots> = Inr (map (\<lambda>l. (l, YDict (if l \<in> set (lang # langs) then setitem (A l) key v else A l))) ks)"
    using Cons.prems(3) by auto
  finally show ?case .
qed

lemma assign_processed_table:
  "distinct ks \<Longrightarrow> set langs \<subseteq> set ks \<Longrightarrow> distinct langs \<Longrightarrow>
   assign_processed langs key (map (\<lambda>l. (l, P l)) ks) (map (\<lambda>l. (l, YDict (A l))) ks) =
     Inr (map (\<lambda>l. (l, YDict (if l \<in> set langs then setitem (A l) key (P l) else A l))) ks)"
proof (induction langs arbitrary: A)
  case Nil
  then show ?case by simp
next
  case (Cons lang langs)
  let ?A = "A(lang := setitem (A lang) key (P lang))"
  have "assign_processed (lang # langs) key (map (\<lambda>l. (l, P l)) ks) (map (\<lambda>l. (l, YDict (A l))) ks) =
          assign_processed langs key (map (\<lambda>l. (l, P l)) ks) (map (\<lambda>l. (l, YDict (?A l))) ks)"
    using Cons.prems by (simp add: set_field_table getitem_table)
  also have "\<dots> = Inr (map (\<lambda>l. (l, YDict (if l \<in> set langs then setitem (?A l) key (P l) else ?A l))) ks)"
    using Cons.prems by (intro Cons.IH) auto
  also have "\<dots> = Inr (map (\<lambda>l. (l, YDict (if l \<in> set (lang # langs) then setitem (A l) key (P l) else A l))) ks)"
    using Cons.prems(3) by auto
  finally show ?case .
qed

lemma append_processed_table:
  "distinct ks \<Longrightarrow> set langs \<subseteq> set ks \<Longrightarrow> distinct langs \<Longrightarrow>
   append_processed langs (map (\<lambda>l. (l, P l)) ks) (map (\<lambda>l. (l, YList (B l))) ks) =
     Inr (map (\<lambda>l. (l, YList (if l \<in> set langs then B l @ [P l] else B l))) ks)"
proof (induction langs arbitrary: B)
  case Nil
  then show ?case by simp
next
  case (Cons lang langs)
  let ?B = "B(lang := B lang @ [P lang])"
  have "append_processed (lang # langs) (map (\<lambda>l. (l, P l)) ks) (map (\<lambda>l. (l, YList (B l))) ks) =
          append_processed langs (map (\<lambda>l. (l, P l)) ks) (map (\<lambda>l. (l, YList (?B l))) ks)"
    using Cons.prems by (simp add: append_item_table getitem_table)
  also have "\<dots> = Inr (map (\<lambda>l. (l, YList (if l \<in> set langs then ?B l @ [P l] else ?B l))) ks)"
    using Cons.prems by (intro Cons.IH) auto
  also have "\<dots> = Inr (map (\<lambda>l. (l, YList (if l \<in> set (lang # langs) then B l @ [P l] else B l))) ks)"
    using Cons.prems(3) by auto
  finally show ?case .
qed

lemma joined_docs_table:
  "\<forall>l\<in>set langs. map_of ds l = Some (D l) \<Longrightarrow> distinct langs \<Longrightarrow>
   set langs \<inter> fst ` set rd = {} \<Longrightarrow>
   joined_docs ds langs rd = Inr (rd @ map (\<lambda>l. (l, YStr (join NL (D l)))) langs)"
proof (induction langs arbitrary: rd)
  case Nil
  then show ?case by simp
next
  case (Cons lang langs)
  have "setitem rd lang (YStr (join NL (D lang))) = rd @ [(lang, YStr (join NL (D lang)))]"
    using Cons.prems(3) by (intro setitem_new) auto
  moreover have "set langs \<inter> fst ` set (rd @ [(lang, YStr (join NL (D lang)))]) = {}"
    using Cons.prems by auto
  ultimately show ?case
    using Cons.IH [of "rd @ [(lang, YStr (join NL (D lang)))]"] Cons.prems(1,2)
    by (simp add: getitem_def)
qed

lemma process_table:
  "(distinct tags \<longrightarrow> wf_yml obj \<longrightarrow>
      process_obj g tags obj = Inr (map (\<lambda>l. (l, proj g tags l obj)) tags))"
  "(\<forall>A. distinct tags \<longrightarrow> distinct (map fst kvs) \<longrightarrow> wf_fields kvs \<longrightarrow>
        (\<forall>l\<in>set tags. fst ` set kvs \<inter> fst ` set (A l) = {}) \<longrightarrow>
        rd = map (\<lambda>l. (l, YDict (A l))) tags \<longrightarrow>
        process_fields g tags kvs rd =
          Inr (map (\<lambda>l. (l, YDict (A l @ proj_fields g tags l kvs))) tags))"
  "(\<forall>B. distinct tags \<longrightarrow> wf_items xs \<longrightarrow>
        rd' = map (\<lambda>l. (l, YList (B l))) tags \<longrightarrow>
        process_list g tags xs rd' =
          Inr (map (\<lambda>l. (l, YList (B l @ proj_items g tags l xs))) tags))"
proof (induction g tags obj and g tags kvs rd and g tags xs rd'
       rule: process_obj_process_fields_process_list.induct)
  case (1 g tags kvs)
  show ?case
    using "1.IH" [THEN spec, of "\<lambda>_. []"]
    by (simp add: dict_comp_distinct)
next
  case (2 g tags xs)
  show ?case
    using "2.IH" [THEN spec, of "\<lambda>_. []"]
    by (simp add: dict_comp_distinct)
next
  case (3 g tags s)
  show ?case
    using joined_docs_table [of tags "classify g tags (splitlines s)"
            "\<lambda>l. emitted g tags UNKNOWN l (splitlines s)" "[]"]
    by (simp add: classify_def map_of_classify)
next
  case (4 g tags sc)
  then show ?case by (simp add: dict_comp_distinct)
next
  case (5 g tags result_dicts)
  then show ?case by simp
next
  case (6 g tags key v rest result_dicts)
  show ?case
  proof (intro allI impI)
    fix A
    assume d: "distinct tags" and dk: "distinct (map fst ((key, v) # rest))"
      and wf: "wf_fields ((key, v) # rest)"
      and disj: "\<forall>l\<in>set tags. fst ` set ((key, v) # rest) \<inter> fst ` set (A l) = {}"
      and rd: "result_dicts = map (\<lambda>l. (l, YDict (A l))) tags"
    have new: "\<And>l x. l \<in> set tags \<Longrightarrow> setitem (A l) key x = A l @ [(key, x)]"
      using disj by (intro setitem_new) auto
    show "process_fields g tags ((key, v) # rest) result_dicts =
            Inr (map (\<lambda>l. (l, YDict (A l @ proj_fields g tags l ((key, v) # rest)))) tags)"
    proof (cases "key = ''mmg''")
      case True
      let ?A = "\<lambda>l. A l @ [(key, v)]"
      have ac: "assign_copies tags key v result_dicts = Inr (map (\<lambda>l. (l, YDict (?A l))) tags)"
        using assign_copies_table [of tags tags key v A] d new by (simp add: rd)
      have dA: "\<forall>l\<in>set tags. fst ` set rest \<inter> fst ` set (?A l) = {}"
        using disj dk by auto
      have "process_fields g tags rest (map (\<lambda>l. (l, YDict (?A l))) tags) =
              Inr (map (\<lambda>l. (l, YDict (?A l @ proj_fields g tags l rest))) tags)"
        using "6.IH"(1) [OF True ac, THEN spec, of ?A] d dk wf dA by simp
      then show ?thesis
        using True ac by simp
    next
      case False
      let ?A = "\<lambda>l. A l @ [(key, proj g tags l v)]"
      have po: "process_obj g tags v = Inr (map (\<lambda>l. (l, proj g tags l v)) tags)"
        using "6.IH"(2) [OF False] d wf by simp
      have ap: "assign_processed tags key (map (\<lambda>l. (l, proj g tags l v)) tags) result_dicts =
                  Inr (map (\<lambda>l. (l, YDict (?A l))) tags)"
        using assign_processed_table [of tags tags key "\<lambda>l. proj g tags l v" A] d new
        by (simp add: rd)
      have dA: "\<forall>l\<in>set tags. fst ` set rest \<inter> fst ` set (?A l) = {}"
        using disj dk by auto
      have "process_fields g tags rest (map (\<lambda>l. (l, YDict (?A l))) tags) =
              Inr (map (\<lambda>l. (l, YDict (?A l @ proj_fields g tags l rest))) tags)"
        using "6.IH"(3) [OF False po ap, THEN spec, of ?A] d dk wf dA by simp
      then show ?thesis
        using False po ap by simp
    qed
  qed
next
  case (7 g tags result_dicts)
  then show ?case by simp
next
  case (8 g tags item rest result_dicts)
  show ?case
  proof (intro allI impI)
    fix B
    assume d: "distinct tags" and wf: "wf_items (item # rest)"
      and rd: "result_dicts = map (\<lambda>l. (l, YList (B l))) tags"
    let ?B = "\<lambda>l. B l @ [proj g tags l item]"
    have po: "process_obj g tags item = Inr (map (\<lambda>l. (l, proj g tags l item)) tags)"
      using "8.IH"(1) d wf by simp
    have ap: "append_processed tags (map (\<lambda>l. (l, proj g tags l item)) tags) result_dicts =
                Inr (map (\<lambda>l. (l, YList (?B l))) tags)"
      using append_processed_table [of tags tags "\<lambda>l. proj g tags l item" B] d
      by (simp add: rd)
    have "process_list g tags rest (map (\<lambda>l. (l, YList (?B l))) tags) =
            Inr (map (\<lambda>l. (l, YList (?B l @ proj_items g tags l rest))) tags)"
      using "8.IH"(2) [OF po ap, THEN spec, of ?B] d wf by simp
    then show "process_list g tags (item # rest) result_dicts =
            Inr (map (\<lambda>l. (l, YList (B l @ proj_items g tags l (item # rest)))) tags)"
      using po ap by simp
  qed
qed


lemma same_shape_proj:
  "same_shape obj (proj g tags lang obj)"
  "same_fields kvs (proj_fields g tags lang kvs)"
  "same_items xs (proj_items g tags lang xs)"
  by (induction g tags lang obj and g tags lang kvs and g tags lang xs
      rule: proj_proj_fields_proj_items.induct) auto

lemma mmg_proj_fields: "map_of (proj_fields g tags lang kvs) ''mmg'' = map_of kvs ''mmg''"
  by (induction kvs) auto

lemma health_check_open:
  "gate_open hc base c ext skip force \<Longrightarrow> health_check hc base c ext skip force = Inr ()"
  by (auto simp: gate_open_def health_check_def split: prod.splits)

text \<open>
  C4, as the code behaves. When the declared tags are pairwise distinct and the gate lets the
  conversion through, \<open>convert_base_yml\<close> returns, for every declared language, a
  tree of the same shape as the input: the same keys in every dictionary, the same
  length of every list, strings where the input has strings, every other scalar
  unchanged, and under the key \<open>mmg\<close> the value of the input.
\<close>

theorem convert_base_yml_shape:
  assumes "cfg_or cfg (extract_config_from_yml repr base_yml) = Inr c"
    and "iter_tags (lang_tags c) = Inr tags"
    and "distinct tags"
    and "wf_yml base_yml"
    and "gate_open hc base_yml c ''yml'' skip force"
  shows "\<exists>out. convert_base_yml g repr hc base_yml cfg skip force = Inr out \<and>
           (\<forall>lang\<in>set tags. \<exists>t. map_of out lang = Some t \<and> same_shape base_yml t \<and>
              (\<forall>kvs. base_yml = YDict kvs \<longrightarrow>
                 (\<exists>kvs'. t = YDict kvs' \<and> map_of kvs' ''mmg'' = map_of kvs ''mmg'')))"
proof -
  let ?out = "map (\<lambda>l. (l, proj g tags l base_yml)) tags"
  have "process_obj g tags base_yml = Inr ?out"
    using process_table(1) [of tags base_yml g] assms(3,4) by simp
  then have conv: "convert_base_yml g repr hc base_yml cfg skip force = Inr ?out"
    using assms(1,2) health_check_open [OF assms(5)]
    by (simp add: convert_base_yml_def)
  have "\<exists>t. map_of ?out lang = Some t \<and> same_shape base_yml t \<and>
              (\<forall>kvs. base_yml = YDict kvs \<longrightarrow>
                 (\<exists>kvs'. t = YDict kvs' \<and> map_of kvs' ''mmg'' = map_of kvs ''mmg''))"
    if "lang \<in> set tags" for lang
    using that by (auto simp: map_of_table same_shape_proj mmg_proj_fields)
  then show ?thesis using conv by blast
qed

lemma wf_items_tree: "wf_yml items_tree"
  by (simp add: items_tree_def)

theorem convert_base_yml_shape_witness:
  "\<exists>out. convert_base_yml block_grammar (\<lambda>_. []) hc_missing items_tree None True False = Inr out \<and>
         (\<exists>t. map_of out ''fr'' = Some t \<and> same_shape items_tree t)"
proof -
  let ?c = "\<lparr>lang_tags = TagList [''en'', ''fr''], no_suffix = None\<rparr>"
  have 1: "cfg_or None (extract_config_from_yml (\<lambda>_. []) items_tree) = Inr ?c"
    by (simp add: cfg_or_def extract_items_tree)
  have 2: "iter_tags (lang_tags ?c) = Inr [''en'', ''fr'']"
    by simp
  have 3: "distinct [''en'', ''fr'']"
    by simp
  have 5: "gate_open hc_missing items_tree ?c ''yml'' True False"
    by (simp add: gate_open_def)
  obtain out where o: "convert_base_yml block_grammar (\<lambda>_. []) hc_missing items_tree None True False = Inr out"
    and a: "\<forall>lang\<in>set [''en'', ''fr'']. \<exists>t. map_of out lang = Some t \<and> same_shape items_tree t \<and>
              (\<forall>kvs. items_tree = YDict kvs \<longrightarrow>
                 (\<exists>kvs'. t = YDict kvs' \<and> map_of kvs' ''mmg'' = map_of kvs ''mmg''))"
    using convert_base_yml_shape [OF 1 2 3 wf_items_tree 5, of block_grammar] by (elim exE conjE)
  have "''fr'' \<in> set [''en'', ''fr'']"
    by simp
  with a have "\<exists>t. map_of out ''fr'' = Some t \<and> same_shape items_tree t \<and>
              (\<forall>kvs. items_tree = YDict kvs \<longrightarrow>
                 (\<exists>kvs'. t = YDict kvs' \<and> map_of kvs' ''mmg'' = map_of kvs ''mmg''))"
    by (rule bspec)
  then obtain t where "map_of out ''fr'' = Some t" "same_shape items_tree t"
    by (elim exE conjE)
  with o show ?thesis by (intro exI conjI)
qed

theorem convert_base_yml_duplicate_tags_counterexample:
  "convert_base_yml block_grammar (\<lambda>_. []) hc_missing dup_tree None True False =
     Inr [(''en'', YDict [(''mmg'', YDict [(''lang_tags'', YList [YStr ''en'', YStr ''en''])]),
                         (''items'', YList [YStr ''A'', YStr ''A''])])] \<and>
   \<not> same_shape dup_tree
       (YDict [(''mmg'', YDict [(''lang_tags'', YList [YStr ''en'', YStr ''en''])]),
               (''items'', YList [YStr ''A'', YStr ''A''])])"
  by code_simp

section \<open>Notebook cells with a string source\<close>

lemma extract_loop_scan:
  "length m = length ls \<Longrightarrow>
   (extract_loop g (mpre @ m) (zip [length mpre..<length mpre + length ls] ls) cfg = Inr cfg') =
   (scan_ok g (zip m ls) cfg = Some cfg')"
proof (induction ls arbitrary: m mpre cfg)
  case Nil
  then show ?case by simp
next
  case (Cons l ls)
  then obtain b m' where m: "m = b # m'" and len: "length m' = length ls"
    by (cases m) auto
  have z: "zip [length mpre..<length mpre + length (l # ls)] (l # ls) =
             (length mpre, l) # zip [Suc (length mpre)..<Suc (length mpre + length ls)] ls"
    by (simp add: upt_rec)
  have IH: "(extract_loop g (mpre @ b # m') (zip [Suc (length mpre)..<Suc (length mpre + length ls)] ls) c = Inr cfg') =
            (scan_ok g (zip m' ls) c = Some cfg')" for c
    using Cons.IH [OF len, of "mpre @ [b]" c] by simp
  have nth: "(mpre @ b # m') ! length mpre = b" "\<not> length (mpre @ b # m') \<le> length mpre"
    by simp_all
  have "(extract_loop g (mpre @ b # m')
           ((length mpre, l) # zip [Suc (length mpre)..<Suc (length mpre + length ls)] ls) cfg = Inr cfg') =
        (scan_ok g ((b, l) # zip m' ls) cfg = Some cfg')"
  proof (cases "b \<or> \<not> comment_match g l")
    case True
    then show ?thesis
      unfolding extract_loop_Cons scan_ok.simps using nth IH by auto
  next
    case False
    show ?thesis
    proof (cases "line_step g l cfg")
      case (Inl e)
      then show ?thesis
        unfolding extract_loop_Cons scan_ok.simps using nth False
        by (cases e) auto
    next
      case (Inr c)
      then show ?thesis
        unfolding extract_loop_Cons scan_ok.simps using nth False IH by auto
    qed
  qed
  then show ?case
    unfolding z m by simp
qed

lemma extract_md_scan:
  "(extract_config_from_md g (flag_code_block_lines g) doc = Inr cfg') =
   (scan_ok g (zip (flag_from (fence_match g) False doc) doc) Config0 = Some cfg')"
  using extract_loop_scan [of "flag_from (fence_match g) False doc" doc g "[]" Config0 cfg']
  by (simp add: extract_config_from_md_def flag_code_block_lines_def enumerate_lines_def
        length_flag_from)

lemma line_step_no_match:
  "lang_tags_search g l = None \<Longrightarrow> no_suffix_search g l = None \<Longrightarrow> line_step g l cfg = Inr cfg"
  by (simp add: line_step_cases after_line_def)

lemma scan_inert_segment:
  "\<forall>l\<in>set seg. \<not> fence_match g l \<and> lang_tags_search g l = None \<and> no_suffix_search g l = None \<Longrightarrow>
   scan_ok g (zip (flag_from (fence_match g) b (seg @ rest)) (seg @ rest)) cfg =
   scan_ok g (zip (flag_from (fence_match g) b rest) rest) cfg"
  by (induction seg) (auto simp: line_step_no_match)

lemma scan_common_segment:
  "(\<And>b cfg. scan_ok g (zip (flag_from f b rest) rest) cfg =
             scan_ok g (zip (flag_from f b rest') rest') cfg) \<Longrightarrow>
   scan_ok g (zip (flag_from f b (seg @ rest)) (seg @ rest)) cfg =
   scan_ok g (zip (flag_from f b (seg @ rest')) (seg @ rest')) cfg"
  by (induction seg arbitrary: b cfg) (auto split: sum.splits)

lemma scan_blank_sources:
  assumes "\<forall>c. \<not> fence_match g [c] \<and> lang_tags_search g [c] = None \<and> no_suffix_search g [c] = None"
  shows "scan_ok g (zip (flag_from (fence_match g) b (concat (map iter_source srcs)))
                       (concat (map iter_source srcs))) cfg =
         scan_ok g (zip (flag_from (fence_match g) b (concat (map iter_source (map blank_src srcs))))
                       (concat (map iter_source (map blank_src srcs)))) cfg"
proof (induction srcs arbitrary: b cfg)
  case Nil
  then show ?case by simp
next
  case (Cons s srcs)
  show ?case
  proof (cases s)
    case (SrcLines ls)
    then show ?thesis
      using scan_common_segment [of g "fence_match g" "concat (map iter_source srcs)"
              "concat (map iter_source (map blank_src srcs))" b ls cfg] Cons.IH
      by simp
  next
    case (SrcText t)
    have "\<forall>l\<in>set (map (\<lambda>c. [c]) t).
            \<not> fence_match g l \<and> lang_tags_search g l = None \<and> no_suffix_search g l = None"
      using assms by auto
    then show ?thesis
      using scan_inert_segment [of "map (\<lambda>c. [c]) t" g b "concat (map iter_source srcs)" cfg]
        Cons.IH [of b cfg]
      by (simp add: SrcText)
  qed
qed

lemma md_sources_blank:
  "md_sources (map blank_text_cell cs) =
     (case md_sources cs of Inl e \<Rightarrow> Inl e | Inr srcs \<Rightarrow> Inr (map blank_src srcs))"
  by (induction cs) (auto simp: blank_text_cell_def split: option.splits sum.splits)

text \<open>
  C10. Iterating a source that is a single string yields its characters, one string of
  length one each. When no string of length one matches a directive or a fence, such a
  markdown cell contributes nothing to the Config of \<open>extract_config_from_jupyter\<close>:
  the notebook yields a Config exactly when the notebook with these sources emptied
  yields it.
\<close>

theorem string_source_contributes_nothing:
  assumes "\<forall>c. \<not> fence_match g [c] \<and> lang_tags_search g [c] = None \<and> no_suffix_search g [c] = None"
  shows "iter_source (SrcText s) = map (\<lambda>c. [c]) s \<and>
         (extract_config_from_jupyter g (flag_code_block_lines g) nb = Inr cfg \<longleftrightarrow>
          extract_config_from_jupyter g (flag_code_block_lines g) (blank_text_cells nb) = Inr cfg)"
proof -
  have "(extract_config_from_jupyter g (flag_code_block_lines g) nb = Inr cfg) =
        (extract_config_from_jupyter g (flag_code_block_lines g) (blank_text_cells nb) = Inr cfg)"
  proof (cases "cells nb")
    case None
    then show ?thesis
      by (simp add: extract_config_from_jupyter_def blank_text_cells_def)
  next
    case (Some cs)
    show ?thesis
    proof (cases "md_sources cs")
      case (Inl e)
      then show ?thesis
        using Some
        by (simp add: extract_config_from_jupyter_def blank_text_cells_def md_sources_blank)
    next
      case (Inr srcs)
      then show ?thesis
        using Some scan_blank_sources [OF assms, of False srcs Config0]
        by (simp add: extract_config_from_jupyter_def blank_text_cells_def md_sources_blank
              extract_md_scan)
    qed
  qed
  then show ?thesis by simp
qed

lemma block_single_char:
  "\<forall>c. \<not> fence_match block_grammar [c] \<and> lang_tags_search block_grammar [c] = None \<and>
       no_suffix_search block_grammar [c] = None"
  by (simp add: block_grammar_def keyed_def block_payload_def)

lemma extract_blank_nb_text:
  "extract_config_from_jupyter block_grammar (flag_code_block_lines block_grammar)
     (blank_text_cells nb_text) = Inr Config0"
  by code_simp

theorem string_source_contributes_nothing_witness:
  "extract_config_from_jupyter block_grammar (flag_code_block_lines block_grammar) nb_text =
     Inr Config0"
  using string_source_contributes_nothing [OF block_single_char, of "''<!-- lang_tags: en,es -->''" nb_text Config0]
  by (simp add: extract_blank_nb_text)

end
